theory Spec2Isabelle
  imports Main "HOL-Library.AList" "HOL-Library.Sublist" "HOL-Library.Word"
    "HOL-Library.Char_ord" "HOL-Library.List_Lexorder"
begin

unbundle bit_operations_syntax

text \<open>
  A shallow embedding of the core of the travel planner: the signed envelope of the
  agent-to-agent protocol, the keyed state store, the in-memory message bus and the
  orchestrator of a planning run. The model comes first, component by component, each
  definition under the name of the Python function it follows; the properties come after
  it, in the same order.
\<close>

section \<open>Python values\<close>

text \<open>
  Strings are \<open>string\<close>: a Python \<open>str\<close> whose code points lie below 256, one
  \<open>char\<close> per code point. Byte strings use the same carrier.

  Exceptions are values. \<open>py_error\<close> lists the exceptions the standard library raises in
  the code paths modelled here.
\<close>

type_synonym bytes = "char list"

datatype py_error = TypeError | ValueError | OverflowError

text \<open>
  A Python \<open>float\<close> is an IEEE-754 double, kept as its 64 bits. A finite
  \<open>decimal.Decimal\<close> is its sign, coefficient and exponent. A naive \<open>datetime\<close> and a
  \<open>date\<close> are their calendar fields.
\<close>

type_synonym pyfloat = "64 word"

datatype decimal = Decimal bool nat int

record date =
  year :: nat
  month :: nat
  day :: nat

record datetime = date +
  hour :: nat
  minute :: nat
  second :: nat
  microsecond :: nat

text \<open>
  The values that travel in payloads and in the state store: \<open>None\<close>, \<open>bool\<close>,
  \<open>int\<close>, \<open>float\<close>, \<open>str\<close>, \<open>list\<close>, \<open>tuple\<close>, \<open>dict\<close> with string keys (in
  insertion order), \<open>Decimal\<close>, \<open>datetime\<close>, \<open>date\<close>, and \<open>PObject c\<close> for an
  object of a class \<open>c\<close> that the JSON encoder does not know (a \<open>set\<close>, \<open>bytes\<close>, an
  instance of a plain user class).
\<close>

datatype pyval =
    PNone
  | PBool bool
  | PInt int
  | PFloat pyfloat
  | PStr string
  | PList "pyval list"
  | PTuple "pyval list"
  | PDict "(string \<times> pyval) list"
  | PDecimal decimal
  | PDatetime datetime
  | PDate date
  | PObject string

text \<open>Truth value testing, as \<open>if x:\<close> and \<open>not x\<close> do it (an object of another class is true).\<close>

fun truthy :: "pyval \<Rightarrow> bool" where
  "truthy PNone = False"
| "truthy (PBool b) = b"
| "truthy (PInt i) = (i \<noteq> 0)"
| "truthy (PFloat f) = (take_bit 63 f \<noteq> 0)"
| "truthy (PStr s) = (s \<noteq> [])"
| "truthy (PList xs) = (xs \<noteq> [])"
| "truthy (PTuple xs) = (xs \<noteq> [])"
| "truthy (PDict kvs) = (kvs \<noteq> [])"
| "truthy (PDecimal (Decimal s c e)) = (c \<noteq> 0)"
| "truthy (PDatetime d) = True"
| "truthy (PDate d) = True"
| "truthy (PObject c) = True"

section \<open>The keyed state store (src/state/store.py)\<close>

text \<open>
  The store compares \<open>datetime\<close> values and adds seconds to them, nothing else, so its clock
  readings are points on a line: microseconds since 0001-01-01T00:00:00. \<open>datetime.max\<close>
  is 9999-12-31T23:59:59.999999; an addition that leaves the range raises
  \<open>OverflowError\<close>.
\<close>

type_synonym timestamp = int

definition datetime_max :: timestamp where
  "datetime_max = 3652059 * 86400000000 - 1"

definition datetime_add_seconds :: "timestamp \<Rightarrow> int \<Rightarrow> py_error + timestamp" where
  "datetime_add_seconds t s =
     (let r = t + s * 1000000
      in if 0 \<le> r \<and> r \<le> datetime_max then Inr r else Inl OverflowError)"

text \<open>
  \<open>_store\<close> and \<open>_expiry\<close> are dictionaries: association lists in insertion order.
  \<open>AList.update\<close> overwrites in place or appends, as \<open>d[k] = v\<close> does;
  \<open>AList.delete\<close> is \<open>d.pop(k, None)\<close>. Every operation takes the reading of the
  clock its eviction pass makes. The methods \<open>get\<close>, \<open>set\<close>, \<open>delete\<close>, \<open>exists\<close>,
  \<open>list_keys\<close> and \<open>clear\<close> of \<open>InMemoryStateStore\<close> are \<open>store_get\<close> to
  \<open>store_clear\<close>.
\<close>

record store_state =
  store :: "(string \<times> pyval) list"
  expiry :: "(string \<times> timestamp) list"

definition empty_store :: store_state where
  "empty_store = \<lparr>store = [], expiry = []\<rparr>"

definition evict :: "string \<Rightarrow> store_state \<Rightarrow> store_state" where
  "evict key st = st\<lparr>store := AList.delete key (store st), expiry := AList.delete key (expiry st)\<rparr>"

definition cleanup_expired :: "timestamp \<Rightarrow> store_state \<Rightarrow> store_state" where
  "cleanup_expired now st =
     (let expired = map fst (filter (\<lambda>(key, e). e \<le> now) (expiry st))
      in fold evict expired st)"

definition store_get :: "timestamp \<Rightarrow> string \<Rightarrow> store_state \<Rightarrow> pyval \<times> store_state" where
  "store_get now key st =
     (let st1 = cleanup_expired now st
      in (case map_of (store st1) key of None \<Rightarrow> PNone | Some v \<Rightarrow> v, st1))"

text \<open>
  \<open>set\<close> reads the clock twice: \<open>now\<close> in the eviction pass, \<open>now2\<close> when it computes
  the expiry. The value is written before the expiry is computed, so it stays written when
  the addition raises.
\<close>

definition store_set ::
  "timestamp \<Rightarrow> timestamp \<Rightarrow> string \<Rightarrow> pyval \<Rightarrow> int option \<Rightarrow> store_state
     \<Rightarrow> (py_error + bool) \<times> store_state" where
  "store_set now now2 key v ttl st =
     (let st1 = cleanup_expired now st;
          st2 = st1\<lparr>store := AList.update key v (store st1)\<rparr>
      in case ttl of
           Some t \<Rightarrow>
             (case datetime_add_seconds now2 t of
                Inl e \<Rightarrow> (Inl e, st2)
              | Inr x \<Rightarrow> (Inr True, st2\<lparr>expiry := AList.update key x (expiry st2)\<rparr>))
         | None \<Rightarrow> (Inr True, st2\<lparr>expiry := AList.delete key (expiry st2)\<rparr>))"

definition store_delete :: "timestamp \<Rightarrow> string \<Rightarrow> store_state \<Rightarrow> bool \<times> store_state" where
  "store_delete now key st =
     (let st1 = cleanup_expired now st
      in if key \<in> fst ` set (store st1) then (True, evict key st1) else (False, st1))"

definition store_exists :: "timestamp \<Rightarrow> string \<Rightarrow> store_state \<Rightarrow> bool \<times> store_state" where
  "store_exists now key st =
     (let st1 = cleanup_expired now st in (key \<in> fst ` set (store st1), st1))"

definition match_pattern :: "string \<Rightarrow> string \<Rightarrow> bool" where
  "match_pattern pattern k =
     (if suffix ''*'' pattern then prefix (butlast pattern) k
      else if prefix ''*'' pattern then suffix (tl pattern) k
      else sublist pattern k)"

definition store_list_keys ::
  "timestamp \<Rightarrow> string option \<Rightarrow> store_state \<Rightarrow> string list \<times> store_state" where
  "store_list_keys now pattern st =
     (let st1 = cleanup_expired now st;
          keys = map fst (store st1)
      in (case pattern of
            None \<Rightarrow> keys
          | Some p \<Rightarrow> if p = [] then keys else filter (match_pattern p) keys, st1))"

text \<open>\<open>clear\<close> does not read the clock: it has no eviction pass.\<close>

definition store_clear :: "store_state \<Rightarrow> nat \<times> store_state" where
  "store_clear st = (length (store st), st\<lparr>store := [], expiry := []\<rparr>)"

text \<open>Every key with a recorded expiry has a value.\<close>

definition no_orphan_expiry :: "store_state \<Rightarrow> bool" where
  "no_orphan_expiry st = (fst ` set (expiry st) \<subseteq> fst ` set (store st))"

text \<open>The keys the eviction pass removes at clock reading \<open>now\<close>.\<close>

definition expired_keys :: "timestamp \<Rightarrow> store_state \<Rightarrow> string set" where
  "expired_keys now st = {k. \<exists>e. (k, e) \<in> set (expiry st) \<and> e \<le> now}"

section \<open>The signed envelope (src/a2a/protocol.py)\<close>

subsection \<open>Text forms of the standard library\<close>

definition digit_char :: "nat \<Rightarrow> char" where
  "digit_char n = char_of (48 + n)"

fun nat_repr :: "nat \<Rightarrow> string" where
  "nat_repr n = (if n < 10 then [digit_char n] else nat_repr (n div 10) @ [digit_char (n mod 10)])"

declare nat_repr.simps [simp del]

definition int_repr :: "int \<Rightarrow> string" where
  "int_repr i = (if i < 0 then CHR ''-'' # nat_repr (nat (- i)) else nat_repr (nat i))"

text \<open>\<open>'%0wd' % n\<close>: decimal digits, padded with zeros on the left to width \<open>w\<close>.\<close>

definition zero_pad :: "nat \<Rightarrow> nat \<Rightarrow> string" where
  "zero_pad w n = (let s = nat_repr n in replicate (w - length s) CHR ''0'' @ s)"

definition date_isoformat :: "'a date_scheme \<Rightarrow> string" where
  "date_isoformat d = zero_pad 4 (year d) @ ''-'' @ zero_pad 2 (month d) @ ''-'' @ zero_pad 2 (day d)"

definition isoformat :: "datetime \<Rightarrow> string" where
  "isoformat d =
     date_isoformat d @ ''T'' @ zero_pad 2 (hour d) @ '':'' @ zero_pad 2 (minute d) @ '':'' @
     zero_pad 2 (second d) @
     (if microsecond d = 0 then [] else ''.'' @ zero_pad 6 (microsecond d))"

definition hex_digit :: "nat \<Rightarrow> char" where
  "hex_digit n = (if n < 10 then char_of (48 + n) else char_of (87 + n))"

text \<open>
  \<open>json.encoder.py_encode_basestring_ascii\<close>: the string in double quotes, with the
  quote, the backslash and every character outside \<open>' '..'~'\<close> escaped.
\<close>

definition escape_char :: "char \<Rightarrow> string" where
  "escape_char c =
     (if c = CHR 0x22 then [CHR 0x5C, CHR 0x22]
      else if c = CHR 0x5C then [CHR 0x5C, CHR 0x5C]
      else if c = CHR 0x0A then [CHR 0x5C, CHR ''n'']
      else if c = CHR 0x0D then [CHR 0x5C, CHR ''r'']
      else if c = CHR 0x09 then [CHR 0x5C, CHR ''t'']
      else if c = CHR 0x0C then [CHR 0x5C, CHR ''f'']
      else if c = CHR 0x08 then [CHR 0x5C, CHR ''b'']
      else if (of_char c :: nat) < 32 \<or> 126 < (of_char c :: nat)
        then [CHR 0x5C, CHR ''u'', CHR ''0'', CHR ''0'',
              hex_digit (of_char c div 16), hex_digit (of_char c mod 16)]
      else [c])"

definition encode_basestring_ascii :: "string \<Rightarrow> string" where
  "encode_basestring_ascii s = CHR 0x22 # concat (map escape_char s) @ [CHR 0x22]"

text \<open>
  What the code takes from outside the repository, as parameters: the HMAC-SHA256 digest
  (key, message), \<open>float.__repr__\<close> on finite floats, the conversion \<open>float(Decimal)\<close>,
  and the shared secret of the settings.
\<close>

record env =
  hmac_sha256 :: "bytes \<Rightarrow> bytes \<Rightarrow> bytes"
  float_repr :: "pyfloat \<Rightarrow> string"
  float_of_decimal :: "decimal \<Rightarrow> pyfloat"
  a2a_shared_secret :: string

text \<open>\<open>json.encoder.floatstr\<close> with \<open>allow_nan\<close>: the three non-finite doubles have names.\<close>

definition floatstr :: "env \<Rightarrow> pyfloat \<Rightarrow> string" where
  "floatstr L f =
     (if take_bit 11 (drop_bit 52 f) = 2047 then
        (if take_bit 52 f \<noteq> 0 then ''NaN''
         else if bit f 63 then ''-Infinity'' else ''Infinity'')
      else float_repr L f)"

text \<open>The first error of a list of results, in order, or all the values.\<close>

fun collect :: "('e + 'a) list \<Rightarrow> 'e + 'a list" where
  "collect [] = Inr []"
| "collect (Inl e # rs) = Inl e"
| "collect (Inr x # rs) = (case collect rs of Inl e \<Rightarrow> Inl e | Inr xs \<Rightarrow> Inr (x # xs))"

definition join :: "string \<Rightarrow> string list \<Rightarrow> string" where
  "join sep xs = (case xs of [] \<Rightarrow> [] | y # ys \<Rightarrow> y @ concat (map (\<lambda>z. sep @ z) ys))"

text \<open>
  \<open>json.dumps(v, sort_keys=True, cls=CustomEncoder)\<close>. A list and a tuple are arrays.
  A dictionary is written with its items in key order. A value the encoder does not know
  goes to \<open>CustomEncoder.default\<close>: a \<open>Decimal\<close> becomes \<open>float(obj)\<close>, a
  \<open>datetime\<close> or \<open>date\<close> becomes \<open>obj.isoformat()\<close>, and the result is encoded in
  its place; any other object reaches \<open>super().default(obj)\<close>, which raises
  \<open>TypeError\<close>.
\<close>

fun dumps :: "env \<Rightarrow> pyval \<Rightarrow> py_error + string" where
  "dumps L PNone = Inr ''null''"
| "dumps L (PBool b) = Inr (if b then ''true'' else ''false'')"
| "dumps L (PInt i) = Inr (int_repr i)"
| "dumps L (PFloat f) = Inr (floatstr L f)"
| "dumps L (PStr s) = Inr (encode_basestring_ascii s)"
| "dumps L (PList xs) =
     (case collect (map (dumps L) xs) of
        Inl e \<Rightarrow> Inl e
      | Inr ys \<Rightarrow> Inr (''['' @ join '', '' ys @ '']''))"
| "dumps L (PTuple xs) =
     (case collect (map (dumps L) xs) of
        Inl e \<Rightarrow> Inl e
      | Inr ys \<Rightarrow> Inr (''['' @ join '', '' ys @ '']''))"
| "dumps L (PDict kvs) =
     (case collect (map snd (sort_key fst (map (\<lambda>(k, v). (k, dumps L v)) kvs))) of
        Inl e \<Rightarrow> Inl e
      | Inr ys \<Rightarrow>
          Inr (''{'' @ join '', ''
                 (map (\<lambda>(k, y). encode_basestring_ascii k @ '': '' @ y)
                    (zip (sort (map fst kvs)) ys)) @ ''}''))"
| "dumps L (PDecimal d) = Inr (floatstr L (float_of_decimal L d))"
| "dumps L (PDatetime d) = Inr (encode_basestring_ascii (isoformat d))"
| "dumps L (PDate d) = Inr (encode_basestring_ascii (date_isoformat d))"
| "dumps L (PObject c) = Inl TypeError"

subsection \<open>The envelope\<close>

record a2a_metadata =
  sender :: string
  receiver :: "string option"
  priority :: int
  ttl :: int

record a2a_message =
  message_id :: string
  trace_id :: string
  correlation_id :: string
  message_type :: string
  version :: string
  timestamp :: datetime
  payload :: "(string \<times> pyval) list"
  meta :: a2a_metadata
  signature :: "string option"

definition opt_str :: "string option \<Rightarrow> pyval" where
  "opt_str x = (case x of None \<Rightarrow> PNone | Some s \<Rightarrow> PStr s)"

text \<open>
  \<open>A2AMessage.to_dict\<close>: the fields in declaration order (the dump of the model keeps the
  payload's values as they are), the timestamp replaced by its ISO form.
\<close>

definition to_dict :: "a2a_message \<Rightarrow> (string \<times> pyval) list" where
  "to_dict m =
     AList.update ''timestamp'' (PStr (isoformat (timestamp m)))
       [(''message_id'', PStr (message_id m)),
        (''trace_id'', PStr (trace_id m)),
        (''correlation_id'', PStr (correlation_id m)),
        (''message_type'', PStr (message_type m)),
        (''version'', PStr (version m)),
        (''timestamp'', PDatetime (timestamp m)),
        (''payload'', PDict (payload m)),
        (''meta'', PDict [(''sender'', PStr (sender (meta m))),
                          (''receiver'', opt_str (receiver (meta m))),
                          (''priority'', PInt (priority (meta m))),
                          (''ttl'', PInt (ttl (meta m)))]),
        (''signature'', opt_str (signature m))]"

text \<open>The canonical representation: the dictionary without its signature, keys sorted.\<close>

definition canonical :: "env \<Rightarrow> a2a_message \<Rightarrow> py_error + string" where
  "canonical L m = dumps L (PDict (AList.delete ''signature'' (to_dict m)))"

text \<open>\<open>str.encode("utf-8")\<close> on code points below 256: one byte, or two from 128 on.\<close>

definition utf8_encode :: "string \<Rightarrow> bytes" where
  "utf8_encode s =
     concat (map (\<lambda>c. if (of_char c :: nat) < 128 then [c]
                        else [char_of (192 + (of_char c :: nat) div 64),
                              char_of (128 + (of_char c :: nat) mod 64)]) s)"

definition hexdigest :: "bytes \<Rightarrow> string" where
  "hexdigest bs = concat (map (\<lambda>b. [hex_digit (of_char b div 16), hex_digit (of_char b mod 16)]) bs)"

definition hmac_hex :: "env \<Rightarrow> string \<Rightarrow> string \<Rightarrow> string" where
  "hmac_hex L secret text = hexdigest (hmac_sha256 L (utf8_encode secret) (utf8_encode text))"

definition compute_hmac_signature :: "env \<Rightarrow> a2a_message \<Rightarrow> string \<Rightarrow> py_error + string" where
  "compute_hmac_signature L m secret =
     (case canonical L m of
        Inl e \<Rightarrow> Inl e
      | Inr c \<Rightarrow> Inr (hmac_hex L secret c))"

definition resolve_secret :: "env \<Rightarrow> string option \<Rightarrow> string" where
  "resolve_secret L secret = (case secret of None \<Rightarrow> a2a_shared_secret L | Some s \<Rightarrow> s)"

definition sign_message :: "env \<Rightarrow> a2a_message \<Rightarrow> string option \<Rightarrow> py_error + a2a_message" where
  "sign_message L m secret =
     (case compute_hmac_signature L m (resolve_secret L secret) of
        Inl e \<Rightarrow> Inl e
      | Inr s \<Rightarrow> Inr (m\<lparr>signature := Some s\<rparr>))"

text \<open>
  \<open>hmac.compare_digest\<close> on two \<open>str\<close>: equality, and \<open>TypeError\<close> when either holds a
  character outside ASCII.
\<close>

definition is_ascii :: "char \<Rightarrow> bool" where
  "is_ascii c = ((of_char c :: nat) < 128)"

definition compare_digest :: "string \<Rightarrow> string \<Rightarrow> py_error + bool" where
  "compare_digest a b =
     (if list_all is_ascii a \<and> list_all is_ascii b then Inr (a = b) else Inl TypeError)"

definition verify_message :: "env \<Rightarrow> a2a_message \<Rightarrow> string option \<Rightarrow> py_error + bool" where
  "verify_message L m secret =
     (case signature m of
        None \<Rightarrow> Inr False
      | Some s \<Rightarrow>
          (case compute_hmac_signature L m (resolve_secret L secret) of
             Inl e \<Rightarrow> Inl e
           | Inr expected \<Rightarrow> compare_digest s expected))"

text \<open>A value that holds, at any depth, an object the encoder does not know.\<close>

fun has_object :: "pyval \<Rightarrow> bool" where
  "has_object (PList xs) = list_ex has_object xs"
| "has_object (PTuple xs) = list_ex has_object xs"
| "has_object (PDict kvs) = list_ex (\<lambda>(k, v). has_object v) kvs"
| "has_object (PObject c) = True"
| "has_object v = False"


text \<open>
  For the closed theorems: the envelope of the protocol's tests around a given payload, and
  a departure time.
\<close>

definition test_message :: "(string \<times> pyval) list \<Rightarrow> a2a_message" where
  "test_message p =
     \<lparr>message_id = ''m-1'', trace_id = ''trace-1'', correlation_id = ''corr-1'',
      message_type = ''proposal'', version = ''1.0'',
      timestamp = \<lparr>year = 2025, month = 11, day = 18, hour = 9, minute = 30, second = 0,
                   microsecond = 0\<rparr>,
      payload = p,
      meta = \<lparr>sender = ''agent-1'', receiver = None, priority = 5, ttl = 300\<rparr>,
      signature = None\<rparr>"


section \<open>The in-memory message bus (src/a2a/adapters/in\_memory.py)\<close>

text \<open>
  An exception that user code raises is its class name and its message
  (\<open>type(e).__name__\<close> and \<open>str(e)\<close>). A subscriber callback and a monitoring
  listener are plain calls inside a \<open>try\<close> with \<open>except Exception\<close>; what they raise is
  taken to be an instance of \<open>Exception\<close>.
\<close>

record py_exception =
  exc_type :: string
  exc_message :: string

text \<open>
  A subscriber callback is a name and what a call does: return (\<open>None\<close>) or raise. The
  bus keeps, next to the queues, the subscriber lists and the history of the adapter, the
  sequence of callback invocations made so far (callback name, message id, what the call
  raised); the adapter has no such field, it is the trace of the calls
  \<open>callback(message)\<close>. The two \<open>defaultdict\<close>s are total functions with the empty list
  as default. Logging is not modelled.
\<close>

record callback =
  cb_name :: string
  cb_run :: "a2a_message \<Rightarrow> py_exception option"

record bus =
  queues :: "string \<Rightarrow> a2a_message list"
  subscribers :: "string \<Rightarrow> callback list"
  message_history :: "a2a_message list"
  max_history :: nat
  invocations :: "(string \<times> string \<times> py_exception option) list"

definition empty_bus :: bus where
  "empty_bus = \<lparr>queues = (\<lambda>a. []), subscribers = (\<lambda>a. []), message_history = [],
                 max_history = 1000, invocations = []\<rparr>"

text \<open>\<open>receiver or message.meta.receiver\<close>: an empty string counts as no argument.\<close>

definition resolve_target :: "a2a_message \<Rightarrow> string option \<Rightarrow> string option" where
  "resolve_target msg receiver_arg =
     (case receiver_arg of
        None \<Rightarrow> receiver (meta msg)
      | Some r \<Rightarrow> if r = [] then receiver (meta msg) else Some r)"

text \<open>
  The loop over the subscribers: each callback is called in turn, and what a callback raises
  is caught (and logged), so the loop goes on to the next one.
\<close>

fun notify ::
  "callback list \<Rightarrow> a2a_message \<Rightarrow> (string \<times> string \<times> py_exception option) list
     \<Rightarrow> (string \<times> string \<times> py_exception option) list" where
  "notify [] msg calls = calls"
| "notify (cb # cbs) msg calls =
     notify cbs msg (calls @ [(cb_name cb, message_id msg, cb_run cb msg)])"

definition subscribe :: "string \<Rightarrow> callback \<Rightarrow> bus \<Rightarrow> bus" where
  "subscribe agent_id cb b = b\<lparr>subscribers := (subscribers b)(agent_id := subscribers b agent_id @ [cb])\<rparr>"

definition send_message :: "a2a_message \<Rightarrow> string option \<Rightarrow> bus \<Rightarrow> bool \<times> bus" where
  "send_message msg receiver_arg b =
     (case resolve_target msg receiver_arg of
        None \<Rightarrow> (False, b)
      | Some target \<Rightarrow>
          (let b1 = b\<lparr>queues := (queues b)(target := queues b target @ [msg])\<rparr>;
               h = message_history b1 @ [msg];
               b2 = b1\<lparr>message_history := (if length h > max_history b1 then tl h else h)\<rparr>;
               b3 = b2\<lparr>invocations := notify (subscribers b2 target) msg (invocations b2)\<rparr>
           in (True, b3)))"

text \<open>
  \<open>xs[i:]\<close>: a negative start counts from the end and stops at the front, a start beyond
  the end gives the empty list.
\<close>

definition slice_from :: "int \<Rightarrow> 'a list \<Rightarrow> 'a list" where
  "slice_from i xs =
     (let n = int (length xs);
          s = (if i < 0 then max (n + i) 0 else min i n)
      in drop (nat s) xs)"

text \<open>\<open>if trace_id:\<close> holds for a string that is given and not empty.\<close>

definition given :: "string option \<Rightarrow> bool" where
  "given x = (case x of None \<Rightarrow> False | Some s \<Rightarrow> s \<noteq> [])"

definition get_message_history :: "string option \<Rightarrow> string option \<Rightarrow> int \<Rightarrow> bus \<Rightarrow> a2a_message list" where
  "get_message_history trace_arg correlation_arg limit b =
     (let messages = message_history b;
          messages1 = (if given trace_arg
                       then filter (\<lambda>m. trace_id m = the trace_arg) messages else messages);
          messages2 = (if given correlation_arg
                       then filter (\<lambda>m. correlation_id m = the correlation_arg) messages1
                       else messages1)
      in slice_from (- limit) messages2)"

text \<open>Two envelopes of one trace, and a callback that raises.\<close>

definition first_message :: a2a_message where
  "first_message = (test_message [(''n'', PInt 1)])\<lparr>message_id := ''m-1''\<rparr>"

definition second_message :: a2a_message where
  "second_message = (test_message [(''n'', PInt 2)])\<lparr>message_id := ''m-2''\<rparr>"

definition failing_callback :: callback where
  "failing_callback =
     \<lparr>cb_name = ''handler'',
      cb_run = (\<lambda>m. Some \<lparr>exc_type = ''RuntimeError'', exc_message = ''boom''\<rparr>)\<rparr>"

section \<open>The orchestrator (src/workflows/dynamic\_planner.py)\<close>

subsection \<open>Calendar arithmetic of \<open>datetime\<close>\<close>

definition is_leap :: "nat \<Rightarrow> bool" where
  "is_leap y = (y mod 4 = 0 \<and> (y mod 100 \<noteq> 0 \<or> y mod 400 = 0))"

definition days_in_month :: "nat \<Rightarrow> nat \<Rightarrow> nat" where
  "days_in_month y m =
     (if m = 2 then (if is_leap y then 29 else 28)
      else if m = 4 \<or> m = 6 \<or> m = 9 \<or> m = 11 then 30 else 31)"

text \<open>The fields a \<open>datetime\<close> object can hold; its constructor raises \<open>ValueError\<close> on others.\<close>

definition valid_datetime :: "datetime \<Rightarrow> bool" where
  "valid_datetime d =
     (1 \<le> year d \<and> year d \<le> 9999 \<and> 1 \<le> month d \<and> month d \<le> 12 \<and>
      1 \<le> day d \<and> day d \<le> days_in_month (year d) (month d) \<and>
      hour d < 24 \<and> minute d < 60 \<and> second d < 60 \<and> microsecond d < 1000000)"

definition datetime_new :: "datetime \<Rightarrow> py_error + datetime" where
  "datetime_new d = (if valid_datetime d then Inr d else Inl ValueError)"

text \<open>\<open>d.replace(hour=h, minute=m)\<close> and \<open>d.replace(hour=h, minute=m, second=0, microsecond=0)\<close>.\<close>

definition replace_hm :: "datetime \<Rightarrow> nat \<Rightarrow> nat \<Rightarrow> py_error + datetime" where
  "replace_hm d h m = datetime_new (d\<lparr>hour := h, minute := m\<rparr>)"

definition replace_hm00 :: "datetime \<Rightarrow> nat \<Rightarrow> nat \<Rightarrow> py_error + datetime" where
  "replace_hm00 d h m = datetime_new (d\<lparr>hour := h, minute := m, second := 0, microsecond := 0\<rparr>)"

text \<open>\<open>d + timedelta(hours=1)\<close>: \<open>OverflowError\<close> past the last day of year 9999.\<close>

definition add_one_hour :: "datetime \<Rightarrow> py_error + datetime" where
  "add_one_hour d =
     (if hour d < 23 then Inr (d\<lparr>hour := hour d + 1\<rparr>)
      else if day d < days_in_month (year d) (month d)
        then Inr (d\<lparr>day := day d + 1, hour := 0\<rparr>)
      else if month d < 12 then Inr (d\<lparr>month := month d + 1, day := 1, hour := 0\<rparr>)
      else if year d < 9999 then Inr (d\<lparr>year := year d + 1, month := 1, day := 1, hour := 0\<rparr>)
      else Inl OverflowError)"

text \<open>\<open>a <= b\<close> on naive datetimes: the fields in lexicographic order.\<close>

definition datetime_fields :: "datetime \<Rightarrow> nat list" where
  "datetime_fields d = [year d, month d, day d, hour d, minute d, second d, microsecond d]"

definition datetime_le :: "datetime \<Rightarrow> datetime \<Rightarrow> bool" where
  "datetime_le a b = (datetime_fields a \<le> datetime_fields b)"

subsection \<open>\<open>str.split\<close>, \<open>str.strip\<close> and \<open>strptime\<close>\<close>

text \<open>The characters below 256 for which \<open>str.isspace\<close> holds; the class \<open>\s\<close> of \<open>re\<close>.\<close>

definition is_space :: "char \<Rightarrow> bool" where
  "is_space c = ((of_char c :: nat) \<in> {9, 10, 11, 12, 13, 28, 29, 30, 31, 32, 133, 160})"

definition strip :: "string \<Rightarrow> string" where
  "strip s = rev (dropWhile is_space (rev (dropWhile is_space s)))"

fun split_dash :: "string \<Rightarrow> string list" where
  "split_dash [] = [[]]"
| "split_dash (c # cs) =
     (if c = CHR ''-'' then [] # split_dash cs
      else (case split_dash cs of [] \<Rightarrow> [[c]] | p # ps \<Rightarrow> (c # p) # ps))"

definition is_digit :: "char \<Rightarrow> bool" where
  "is_digit c = (48 \<le> (of_char c :: nat) \<and> (of_char c :: nat) \<le> 57)"

definition digit_val :: "char \<Rightarrow> nat" where
  "digit_val c = of_char c - 48"

definition in_range :: "char \<Rightarrow> char \<Rightarrow> char \<Rightarrow> bool" where
  "in_range lo hi c = ((of_char lo :: nat) \<le> of_char c \<and> (of_char c :: nat) \<le> of_char hi)"

text \<open>Lower case of an ASCII letter: all that matching \<open>am\<close> and \<open>pm\<close> without case needs.\<close>

definition ascii_lower :: "char \<Rightarrow> char" where
  "ascii_lower c = (if in_range CHR ''A'' CHR ''Z'' c then char_of ((of_char c :: nat) + 32) else c)"

text \<open>
  \<open>datetime.strptime(s, "%I:%M %p")\<close> in the C locale matches, from the start of \<open>s\<close>
  and ignoring case, the regular expression
  \<^verbatim>\<open>(?P<I>1[0-2]|0[1-9]|[1-9]):(?P<M>[0-5]\d|\d)\s+(?P<p>am|pm)\<close>
  and raises \<open>ValueError\<close> when there is no match or when text remains after it. The
  matchers below try the alternatives of each group in the order of the expression and give
  the values matched and the text that remains. \<open>first_of\<close> is the choice between
  alternatives: the first that leads to a match.
\<close>

fun first_of :: "'a option list \<Rightarrow> 'a option" where
  "first_of [] = None"
| "first_of (None # xs) = first_of xs"
| "first_of (Some x # xs) = Some x"

text \<open>\<open>(am|pm)\<close>: whether it is pm, and the rest.\<close>

definition match_ampm :: "string \<Rightarrow> (bool \<times> string) option" where
  "match_ampm s =
     (if map ascii_lower (take 2 s) = ''am'' then Some (False, drop 2 s)
      else if map ascii_lower (take 2 s) = ''pm'' then Some (True, drop 2 s)
      else None)"

text \<open>\<open>\s+(am|pm)\<close>: the white space is taken greedily; giving some of it back cannot help.\<close>

definition match_space_ampm :: "string \<Rightarrow> (bool \<times> string) option" where
  "match_space_ampm s =
     (case s of
        [] \<Rightarrow> None
      | c # cs \<Rightarrow> if is_space c then match_ampm (dropWhile is_space cs) else None)"

text \<open>\<open>([0-5]\d|\d)\s+(am|pm)\<close>.\<close>

definition match_minute :: "string \<Rightarrow> (nat \<times> bool \<times> string) option" where
  "match_minute s =
     first_of
       [case s of
          c1 # c2 # r \<Rightarrow>
            if in_range CHR ''0'' CHR ''5'' c1 \<and> is_digit c2
            then map_option (Pair (10 * digit_val c1 + digit_val c2)) (match_space_ampm r)
            else None
        | _ \<Rightarrow> None,
        case s of
          c1 # r \<Rightarrow> if is_digit c1 then map_option (Pair (digit_val c1)) (match_space_ampm r) else None
        | _ \<Rightarrow> None]"

text \<open>\<open>:\<close> and the rest of the expression.\<close>

definition match_colon_minute :: "string \<Rightarrow> (nat \<times> bool \<times> string) option" where
  "match_colon_minute s =
     (case s of [] \<Rightarrow> None | c # r \<Rightarrow> if c = CHR '':'' then match_minute r else None)"

text \<open>The whole expression: \<open>(1[0-2]|0[1-9]|[1-9])\<close> and the rest.\<close>

definition match_time :: "string \<Rightarrow> (nat \<times> nat \<times> bool \<times> string) option" where
  "match_time s =
     first_of
       [case s of
          c1 # c2 # r \<Rightarrow>
            if c1 = CHR ''1'' \<and> in_range CHR ''0'' CHR ''2'' c2
            then map_option (Pair (10 + digit_val c2)) (match_colon_minute r) else None
        | _ \<Rightarrow> None,
        case s of
          c1 # c2 # r \<Rightarrow>
            if c1 = CHR ''0'' \<and> in_range CHR ''1'' CHR ''9'' c2
            then map_option (Pair (digit_val c2)) (match_colon_minute r) else None
        | _ \<Rightarrow> None,
        case s of
          c1 # r \<Rightarrow>
            if in_range CHR ''1'' CHR ''9'' c1
            then map_option (Pair (digit_val c1)) (match_colon_minute r) else None
        | _ \<Rightarrow> None]"

text \<open>
  The hour and minute of the parsed time: 12 am is hour 0, and a pm hour other than 12 has
  12 added.
\<close>

definition strptime_IMp :: "string \<Rightarrow> py_error + nat \<times> nat" where
  "strptime_IMp s =
     (case match_time s of
        None \<Rightarrow> Inl ValueError
      | Some (h, m, pm, r) \<Rightarrow>
          if r \<noteq> [] then Inl ValueError
          else Inr (if pm then (if h \<noteq> 12 then h + 12 else h) else (if h = 12 then 0 else h), m))"

subsection \<open>\<open>_parse_time_range\<close>\<close>

definition default_window :: "datetime \<Rightarrow> py_error + datetime \<times> datetime" where
  "default_window base_date =
     (case replace_hm base_date 9 0 of
        Inl e \<Rightarrow> Inl e
      | Inr s \<Rightarrow>
          (case replace_hm base_date 10 0 of
             Inl e \<Rightarrow> Inl e
           | Inr t \<Rightarrow> Inr (s, t)))"

text \<open>The body of the \<open>try\<close>: what it returns, or the exception that leaves it.\<close>

definition parse_time_range_try :: "string \<Rightarrow> datetime \<Rightarrow> py_error + datetime \<times> datetime" where
  "parse_time_range_try time_str base_date =
     (if time_str = [] \<or> CHR ''-'' \<notin> set time_str then default_window base_date
      else
        (case map strip (split_dash time_str) of
           [start_raw, end_raw] \<Rightarrow>
             (case strptime_IMp start_raw of
                Inl e \<Rightarrow> Inl e
              | Inr start_dt \<Rightarrow>
             (case strptime_IMp end_raw of
                Inl e \<Rightarrow> Inl e
              | Inr end_dt \<Rightarrow>
             (case replace_hm00 base_date (fst start_dt) (snd start_dt) of
                Inl e \<Rightarrow> Inl e
              | Inr start_full \<Rightarrow>
             (case replace_hm00 base_date (fst end_dt) (snd end_dt) of
                Inl e \<Rightarrow> Inl e
              | Inr end_full \<Rightarrow>
                  if datetime_le end_full start_full
                  then (case add_one_hour start_full of
                          Inl e \<Rightarrow> Inl e
                        | Inr end_next \<Rightarrow> Inr (start_full, end_next))
                  else Inr (start_full, end_full)))))
         | _ \<Rightarrow> default_window base_date))"

text \<open>With the handler \<open>except Exception\<close>, which computes the default window again.\<close>

definition parse_time_range :: "string \<Rightarrow> datetime \<Rightarrow> py_error + datetime \<times> datetime" where
  "parse_time_range time_str base_date =
     (case parse_time_range_try time_str base_date of
        Inl e \<Rightarrow> default_window base_date
      | Inr w \<Rightarrow> Inr w)"

subsection \<open>The task context and the await phase\<close>

datatype task_status = PENDING | RUNNING | COMPLETED | FAILED | CANCELLED

text \<open>
  \<open>TaskContext\<close>: the three identifiers, the request parameters and the status (the
  fields of the code are \<open>task_id\<close>, \<open>correlation_id\<close>, \<open>trace_id\<close>,
  \<open>request_params\<close> and \<open>status\<close>; the traveler profile is not read by the code
  modelled here).
\<close>

record task_context =
  ctx_task_id :: string
  ctx_correlation_id :: string
  ctx_trace_id :: string
  ctx_request_params :: "(string \<times> pyval) list"
  ctx_status :: task_status

definition empty_optimization :: pyval where
  "empty_optimization = PDict [(''flights'', PList []), (''hotels'', PList []), (''activities'', PList [])]"

text \<open>
  \<open>_wait_for_optimization\<close>. \<open>received\<close> is what the awaited
  \<open>receive_message(agent_id="orchestrator", timeout=timeout, message_type="optimized_plan")\<close>
  returned: the envelope, or \<open>None\<close> when the timeout elapsed. A model instance is
  always true, so \<open>if message:\<close> asks whether one arrived. The two reads of the store are
  made at the clock readings \<open>now\<close> and \<open>now2\<close>.
\<close>

definition wait_for_optimization ::
  "a2a_message option \<Rightarrow> timestamp \<Rightarrow> timestamp \<Rightarrow> task_context \<Rightarrow> store_state
     \<Rightarrow> pyval \<times> store_state" where
  "wait_for_optimization received now now2 context st =
     (case received of
        Some message \<Rightarrow> (PDict (payload message), st)
      | None \<Rightarrow>
          (let (optimized, st1) = store_get now (''optimized_plan:'' @ ctx_task_id context) st;
               (optimized2, st2) =
                  (if \<not> truthy optimized
                   then store_get now2 (''optimized_plan:'' @ ctx_correlation_id context) st1
                   else (optimized, st1))
           in if truthy optimized2 then (optimized2, st2) else (empty_optimization, st2)))"

subsection \<open>Monitoring events (src/callbacks/monitoring.py)\<close>

datatype event_type =
  TASK_START | TASK_PROGRESS | TASK_END | TASK_ERROR | STATE_CHANGE | API_CALL | AGENT_MESSAGE

datatype event_severity = DEBUG | INFO | WARNING | ERROR | CRITICAL

text \<open>
  \<open>MonitoringEvent\<close> without its \<open>event_id\<close> (a fresh UUID) and its \<open>timestamp\<close> (the
  clock).
\<close>

record monitoring_event =
  ev_type :: event_type
  ev_severity :: event_severity
  ev_trace_id :: string
  ev_correlation_id :: string
  ev_task_id :: "string option"
  ev_agent_id :: "string option"
  ev_message :: string
  ev_data :: "(string \<times> pyval) list"
  ev_error :: "(string \<times> string) list option"

text \<open>
  \<open>MonitoringCallbacks\<close>: the two identifiers and the registered listeners. A listener
  is a name and what a call does: return (\<open>None\<close>) or raise. Two traces are kept with
  them, which the class does not hold: \<open>emitted\<close>, the events handed to \<open>_emit_event\<close>
  in order, and \<open>deliveries\<close>, the calls \<open>listener(event)\<close> made (listener name, event,
  what the call raised).
\<close>

record listener =
  listener_name :: string
  listener_run :: "monitoring_event \<Rightarrow> py_exception option"

record monitoring_callbacks =
  cb_trace_id :: string
  cb_correlation_id :: string
  listeners :: "listener list"
  emitted :: "monitoring_event list"
  deliveries :: "(string \<times> monitoring_event \<times> py_exception option) list"

definition register_listener :: "listener \<Rightarrow> monitoring_callbacks \<Rightarrow> monitoring_callbacks" where
  "register_listener l cb = cb\<lparr>listeners := listeners cb @ [l]\<rparr>"

text \<open>
  \<open>_emit_event\<close>: every listener is called in turn; what a listener raises is caught (and
  logged), and the loop goes on.
\<close>

fun deliver ::
  "listener list \<Rightarrow> monitoring_event \<Rightarrow> (string \<times> monitoring_event \<times> py_exception option) list
     \<Rightarrow> (string \<times> monitoring_event \<times> py_exception option) list" where
  "deliver [] ev ds = ds"
| "deliver (l # ls) ev ds = deliver ls ev (ds @ [(listener_name l, ev, listener_run l ev)])"

definition emit_event :: "monitoring_event \<Rightarrow> monitoring_callbacks \<Rightarrow> monitoring_callbacks" where
  "emit_event ev cb =
     cb\<lparr>emitted := emitted cb @ [ev], deliveries := deliver (listeners cb) ev (deliveries cb)\<rparr>"

definition new_event ::
  "monitoring_callbacks \<Rightarrow> event_type \<Rightarrow> event_severity \<Rightarrow> string \<Rightarrow> string
     \<Rightarrow> (string \<times> pyval) list \<Rightarrow> (string \<times> string) list option \<Rightarrow> monitoring_event" where
  "new_event cb t sev tid msg dat err =
     \<lparr>ev_type = t, ev_severity = sev, ev_trace_id = cb_trace_id cb,
      ev_correlation_id = cb_correlation_id cb, ev_task_id = Some tid, ev_agent_id = None,
      ev_message = msg, ev_data = dat, ev_error = err\<rparr>"

text \<open>
  The four callbacks \<open>execute\<close> calls, with the arguments it passes: the agent id is never
  given, and only \<open>on_task_progress\<close> is called without data.
\<close>

definition on_task_start ::
  "string \<Rightarrow> string \<Rightarrow> (string \<times> pyval) list \<Rightarrow> monitoring_callbacks \<Rightarrow> monitoring_callbacks" where
  "on_task_start tid msg dat cb = emit_event (new_event cb TASK_START INFO tid msg dat None) cb"

definition on_task_progress ::
  "string \<Rightarrow> pyfloat \<Rightarrow> string \<Rightarrow> monitoring_callbacks \<Rightarrow> monitoring_callbacks" where
  "on_task_progress tid progress msg cb =
     emit_event (new_event cb TASK_PROGRESS INFO tid msg [(''progress'', PFloat progress)] None) cb"

definition on_task_end ::
  "string \<Rightarrow> string \<Rightarrow> (string \<times> pyval) list \<Rightarrow> monitoring_callbacks \<Rightarrow> monitoring_callbacks" where
  "on_task_end tid msg dat cb = emit_event (new_event cb TASK_END INFO tid msg dat None) cb"

text \<open>\<open>message or f"Task error: {str(error)}"\<close>: an absent or empty message is replaced.\<close>

definition on_task_error ::
  "string \<Rightarrow> py_exception \<Rightarrow> string option \<Rightarrow> monitoring_callbacks \<Rightarrow> monitoring_callbacks" where
  "on_task_error tid e msg cb =
     (let error_message =
            (case msg of
               None \<Rightarrow> ''Task error: '' @ exc_message e
             | Some s \<Rightarrow> if s = [] then ''Task error: '' @ exc_message e else s)
      in emit_event
           (new_event cb TASK_ERROR ERROR tid error_message []
              (Some [(''type'', exc_type e), (''message'', exc_message e)])) cb)"

subsection \<open>\<open>DynamicPlannerWorkflow.execute\<close>\<close>

text \<open>
  What an awaited step raises is either an instance of \<open>Exception\<close> or an exception that
  derives from \<open>BaseException\<close> only: \<open>asyncio.CancelledError\<close> when the task is
  cancelled while it waits, \<open>KeyboardInterrupt\<close>, \<open>SystemExit\<close>. The handler of
  \<open>execute\<close> is \<open>except Exception\<close>: it catches the first kind and lets the second
  pass.
\<close>

datatype raised = ExceptionInstance py_exception | BaseExceptionOnly py_exception

text \<open>
  The steps \<open>execute\<close> awaits, each given by what it does when called: it returns or
  raises, and a step that is handed the callbacks may emit events of its own. They are the
  listener of the consumer agent, the producer (\<open>plan_itinerary\<close>), the await phase and the
  assembly. Of the itinerary, \<open>execute\<close> reads the identifier and the text of the total.
\<close>

record itinerary =
  itinerary_id :: string
  total_cost_total :: string

record workflow_steps =
  start_listening :: "monitoring_callbacks \<Rightarrow> raised option \<times> monitoring_callbacks"
  plan_itinerary ::
    "task_context \<Rightarrow> monitoring_callbacks \<Rightarrow> (raised + pyval) \<times> monitoring_callbacks"
  await_optimization :: "task_context \<Rightarrow> raised + pyval"
  create_itinerary ::
    "task_context \<Rightarrow> pyval \<Rightarrow> monitoring_callbacks
       \<Rightarrow> (raised + itinerary) \<times> monitoring_callbacks"

text \<open>The floats 0.3, 0.6 and 0.8.\<close>

definition progress_03 :: pyfloat where "progress_03 = 0x3FD3333333333333"
definition progress_06 :: pyfloat where "progress_06 = 0x3FE3333333333333"
definition progress_08 :: pyfloat where "progress_08 = 0x3FE999999999999A"

definition dict_get :: "(string \<times> pyval) list \<Rightarrow> string \<Rightarrow> pyval" where
  "dict_get d k = (case map_of d k of None \<Rightarrow> PNone | Some v \<Rightarrow> v)"

text \<open>
  The body of the \<open>try\<close>: the result or the exception that leaves it, with the context and
  the callbacks as they are at that point.
\<close>

definition execute_try ::
  "workflow_steps \<Rightarrow> task_context \<Rightarrow> monitoring_callbacks
     \<Rightarrow> (raised + itinerary) \<times> task_context \<times> monitoring_callbacks" where
  "execute_try steps context cb =
     (case start_listening steps cb of
        (Some x, cb1) \<Rightarrow> (Inl x, context, cb1)
      | (None, cb1) \<Rightarrow>
     (let cb2 = on_task_progress (ctx_task_id context) progress_03
                  ''CrewAI agent creating travel proposal'' cb1
      in case plan_itinerary steps context cb2 of
        (Inl x, cb3) \<Rightarrow> (Inl x, context, cb3)
      | (Inr proposal_result, cb3) \<Rightarrow>
     (let cb4 = on_task_progress (ctx_task_id context) progress_06
                  ''Waiting for ADK agent optimization'' cb3
      in case await_optimization steps context of
        Inl x \<Rightarrow> (Inl x, context, cb4)
      | Inr optimized_plan \<Rightarrow>
     (let cb5 = on_task_progress (ctx_task_id context) progress_08
                  ''Assembling final itinerary'' cb4
      in case create_itinerary steps context optimized_plan cb5 of
        (Inl x, cb6) \<Rightarrow> (Inl x, context, cb6)
      | (Inr it, cb6) \<Rightarrow>
          (Inr it, context\<lparr>ctx_status := COMPLETED\<rparr>,
           on_task_end (ctx_task_id context) ''Workflow completed successfully''
             [(''itinerary_id'', PStr (itinerary_id it)),
              (''total_cost'', PStr (total_cost_total it))] cb6)))))"

text \<open>
  \<open>execute\<close>: the context is created running and \<open>task_start\<close> is emitted. The
  handler \<open>except Exception as e\<close> of the \<open>try\<close> marks the context failed, emits
  \<open>task_error\<close> and raises the exception again; an exception that is no instance of
  \<open>Exception\<close> does not enter the handler and leaves \<open>execute\<close> with the context and
  the callbacks as the body left them. \<open>new_task_id\<close> is the fresh UUID.
\<close>

definition new_context :: "string \<Rightarrow> (string \<times> pyval) list \<Rightarrow> monitoring_callbacks \<Rightarrow> task_context" where
  "new_context new_task_id request_params cb =
     \<lparr>ctx_task_id = new_task_id, ctx_correlation_id = cb_correlation_id cb,
      ctx_trace_id = cb_trace_id cb, ctx_request_params = request_params,
      ctx_status = RUNNING\<rparr>"

definition started :: "string \<Rightarrow> (string \<times> pyval) list \<Rightarrow> monitoring_callbacks \<Rightarrow> monitoring_callbacks" where
  "started new_task_id request_params cb =
     on_task_start new_task_id ''Starting dynamic planning workflow''
       [(''destination'', dict_get request_params ''destination'')] cb"

definition execute ::
  "workflow_steps \<Rightarrow> string \<Rightarrow> (string \<times> pyval) list \<Rightarrow> monitoring_callbacks
     \<Rightarrow> (raised + itinerary) \<times> task_context \<times> monitoring_callbacks" where
  "execute steps new_task_id request_params cb =
     (let context = new_context new_task_id request_params cb;
          cb0 = started new_task_id request_params cb
      in case execute_try steps context cb0 of
           (Inl (ExceptionInstance e), context1, cb1) \<Rightarrow>
             (Inl (ExceptionInstance e), context1\<lparr>ctx_status := FAILED\<rparr>,
              on_task_error new_task_id e (Some (''Workflow failed: '' @ exc_message e)) cb1)
         | (Inl (BaseExceptionOnly e), context1, cb1) \<Rightarrow>
             (Inl (BaseExceptionOnly e), context1, cb1)
         | (Inr it, context1, cb1) \<Rightarrow> (Inr it, context1, cb1))"

text \<open>
  An execution in which \<open>x\<close> is raised by the producer, the await or the assembly step and
  escapes it, the steps before it having returned. \<open>cb0\<close> is the callbacks object at the
  start of the \<open>try\<close>.
\<close>

definition step_raises ::
  "workflow_steps \<Rightarrow> task_context \<Rightarrow> monitoring_callbacks \<Rightarrow> raised \<Rightarrow> bool" where
  "step_raises steps context cb0 x =
     (case start_listening steps cb0 of
        (Some y, cb1) \<Rightarrow> False
      | (None, cb1) \<Rightarrow>
     (case plan_itinerary steps context
             (on_task_progress (ctx_task_id context) progress_03
                ''CrewAI agent creating travel proposal'' cb1) of
        (Inl y, cb3) \<Rightarrow> y = x
      | (Inr proposal_result, cb3) \<Rightarrow>
     (case await_optimization steps context of
        Inl y \<Rightarrow> y = x
      | Inr optimized_plan \<Rightarrow>
     (case create_itinerary steps context optimized_plan
             (on_task_progress (ctx_task_id context) progress_08 ''Assembling final itinerary''
                (on_task_progress (ctx_task_id context) progress_06
                   ''Waiting for ADK agent optimization'' cb3)) of
        (Inl y, cb6) \<Rightarrow> y = x
      | (Inr it, cb6) \<Rightarrow> False))))"

text \<open>
  Steps for the closed theorems. In \<open>failing_steps\<close> the listener starts, the producer
  and the await phase return, and the assembly raises \<open>ValueError\<close>, as
  \<open>datetime.fromisoformat\<close> does in \<open>_create_itinerary\<close> on a start date that is no ISO
  date. In \<open>cancelled_steps\<close> the task is cancelled while it awaits the optimized plan:
  the await raises \<open>asyncio.CancelledError\<close>, whose message is empty. A task context and
  stores for the await phase follow.
\<close>

definition isoformat_error :: py_exception where
  "isoformat_error =
     \<lparr>exc_type = ''ValueError'',
      exc_message = ''Invalid isoformat string: '' @ [CHR 0x27] @ ''tomorrow'' @ [CHR 0x27]\<rparr>"

definition failing_steps :: workflow_steps where
  "failing_steps =
     \<lparr>start_listening = (\<lambda>cb. (None, cb)),
      plan_itinerary = (\<lambda>context cb. (Inr (PDict []), cb)),
      await_optimization = (\<lambda>context. Inr empty_optimization),
      create_itinerary = (\<lambda>context plan cb. (Inl (ExceptionInstance isoformat_error), cb))\<rparr>"

definition cancelled_error :: py_exception where
  "cancelled_error = \<lparr>exc_type = ''CancelledError'', exc_message = []\<rparr>"

definition cancelled_steps :: workflow_steps where
  "cancelled_steps =
     \<lparr>start_listening = (\<lambda>cb. (None, cb)),
      plan_itinerary = (\<lambda>context cb. (Inr (PDict []), cb)),
      await_optimization = (\<lambda>context. Inl (BaseExceptionOnly cancelled_error)),
      create_itinerary =
        (\<lambda>context plan cb. (Inr \<lparr>itinerary_id = ''itin-1'', total_cost_total = ''0''\<rparr>, cb))\<rparr>"

definition failing_listener :: listener where
  "failing_listener =
     \<lparr>listener_name = ''sink'',
      listener_run = (\<lambda>ev. Some \<lparr>exc_type = ''RuntimeError'', exc_message = ''sink down''\<rparr>)\<rparr>"

definition fresh_callbacks :: monitoring_callbacks where
  "fresh_callbacks =
     \<lparr>cb_trace_id = ''trace-1'', cb_correlation_id = ''corr-1'',
      listeners = [failing_listener], emitted = [], deliveries = []\<rparr>"

definition stored_plan :: pyval where
  "stored_plan = PDict [(''flights'', PList [PDict [(''title'', PStr ''DEL-GOI'')]]),
                        (''hotels'', PList []), (''activities'', PList [])]"

definition trace_keyed_store :: store_state where
  "trace_keyed_store =
     \<lparr>store = [(''optimized_plan:trace-1'', stored_plan)],
      expiry = [(''optimized_plan:trace-1'', 3600000000)]\<rparr>"

definition task_keyed_store :: store_state where
  "task_keyed_store = \<lparr>store = [(''optimized_plan:task-1'', stored_plan)], expiry = []\<rparr>"

definition schedule_day :: datetime where
  "schedule_day = \<lparr>year = 2025, month = 12, day = 1, hour = 0, minute = 0, second = 0,
                    microsecond = 0\<rparr>"

section \<open>Properties of the state store\<close>

lemma evict_keys:
  "fst ` set (store (evict k st)) = fst ` set (store st) - {k}"
  "fst ` set (expiry (evict k st)) = fst ` set (expiry st) - {k}"
  by (auto simp: evict_def AList.delete_eq)

lemma fold_evict_keys:
  "fst ` set (store (fold evict ks st)) = fst ` set (store st) - set ks \<and>
   fst ` set (expiry (fold evict ks st)) = fst ` set (expiry st) - set ks"
  by (induction ks arbitrary: st) (auto simp: evict_keys)

lemma fold_evict_store_entries:
  "set (store (fold evict ks st)) = {p \<in> set (store st). fst p \<notin> set ks}"
  by (induction ks arbitrary: st) (auto simp: evict_def AList.delete_eq)

lemma fold_evict_expiry_entries:
  "set (expiry (fold evict ks st)) = {p \<in> set (expiry st). fst p \<notin> set ks}"
  by (induction ks arbitrary: st) (auto simp: evict_def AList.delete_eq)

lemma fold_evict_distinct:
  "distinct (map fst (expiry st)) \<Longrightarrow> distinct (map fst (expiry (fold evict ks st)))"
  by (induction ks arbitrary: st) (auto simp: evict_def AList.distinct_delete)

lemma fold_evict_map_of:
  "k \<notin> set ks \<Longrightarrow> map_of (store (fold evict ks st)) k = map_of (store st) k"
  by (induction ks arbitrary: st) (auto simp: evict_def AList.delete_conv')

lemma set_expired: "set (map fst (filter (\<lambda>(key, e). e \<le> now) (expiry st))) = expired_keys now st"
  by (force simp: expired_keys_def)

lemma cleanup_store_keys:
  "fst ` set (store (cleanup_expired now st)) = fst ` set (store st) - expired_keys now st"
  unfolding cleanup_expired_def Let_def fold_evict_keys[THEN conjunct1] set_expired ..

lemma cleanup_expiry_keys:
  "fst ` set (expiry (cleanup_expired now st)) = fst ` set (expiry st) - expired_keys now st"
  unfolding cleanup_expired_def Let_def fold_evict_keys[THEN conjunct2] set_expired ..


lemma cleanup_map_of:
  "k \<notin> expired_keys now st \<Longrightarrow> map_of (store (cleanup_expired now st)) k = map_of (store st) k"
  unfolding cleanup_expired_def Let_def using fold_evict_map_of set_expired by metis

lemma cleanup_distinct:
  "distinct (map fst (expiry st)) \<Longrightarrow> distinct (map fst (expiry (cleanup_expired now st)))"
  unfolding cleanup_expired_def Let_def by (rule fold_evict_distinct)

lemma cleanup_no_orphan:
  "no_orphan_expiry st \<Longrightarrow> no_orphan_expiry (cleanup_expired now st)"
  by (auto simp: no_orphan_expiry_def cleanup_store_keys cleanup_expiry_keys)

text \<open>
  Claim C10. Every operation of the in-memory store (get, set, delete, exists, list_keys,
  clear) keeps the invariant that a key with a recorded expiry also has a value. A set
  without a ttl leaves no expiry recorded for its key, and from then on a get of that key
  returns the value written, at every clock reading \<open>t\<close>: the key no longer expires.
\<close>

theorem store_ops_preserve_no_orphan_expiry:
  assumes "no_orphan_expiry st"
  shows "no_orphan_expiry (snd (store_get now k st)) \<and>
         no_orphan_expiry (snd (store_set now now2 k v secs st)) \<and>
         no_orphan_expiry (snd (store_delete now k st)) \<and>
         no_orphan_expiry (snd (store_exists now k st)) \<and>
         no_orphan_expiry (snd (store_list_keys now pat st)) \<and>
         no_orphan_expiry (snd (store_clear st)) \<and>
         k \<notin> fst ` set (expiry (snd (store_set now now2 k v None st))) \<and>
         fst (store_get t k (snd (store_set now now2 k v None st))) = v"
proof -
  let ?c = "cleanup_expired now st"
  have c: "no_orphan_expiry ?c" using assms by (rule cleanup_no_orphan)
  have g: "no_orphan_expiry (snd (store_get now k st))"
    using c by (simp add: store_get_def Let_def)
  have s: "no_orphan_expiry (snd (store_set now now2 k v secs st))"
    using c by (auto simp: store_set_def Let_def no_orphan_expiry_def AList.dom_update AList.delete_eq
        split: option.splits sum.splits)
  have d: "no_orphan_expiry (snd (store_delete now k st))"
    using c by (auto simp: store_delete_def Let_def no_orphan_expiry_def evict_keys)
  have e: "no_orphan_expiry (snd (store_exists now k st))"
    using c by (simp add: store_exists_def Let_def)
  have l: "no_orphan_expiry (snd (store_list_keys now pat st))"
    using c by (simp add: store_list_keys_def Let_def)
  have cl: "no_orphan_expiry (snd (store_clear st))"
    by (simp add: store_clear_def no_orphan_expiry_def)
  let ?s = "snd (store_set now now2 k v None st)"
  have n: "k \<notin> fst ` set (expiry ?s)"
    by (simp add: store_set_def Let_def AList.delete_notin_dom)
  then have "k \<notin> expired_keys t ?s"
    by (force simp: expired_keys_def)
  then have "map_of (store (cleanup_expired t ?s)) k = map_of (store ?s) k"
    by (rule cleanup_map_of)
  also have "\<dots> = Some v"
    by (simp add: store_set_def Let_def AList.update_conv')
  finally have p: "fst (store_get t k ?s) = v"
    by (simp add: store_get_def Let_def)
  from g s d e l cl n p show ?thesis by blast
qed

lemma expired_keys_update:
  assumes "distinct (map fst al)"
  shows "expired_keys t (st\<lparr>expiry := AList.update k x al\<rparr>) \<inter> {k} = (if x \<le> t then {k} else {})"
proof -
  have d: "distinct (map fst (AList.update k x al))"
    using assms by (rule AList.distinct_update)
  have m: "map_of (AList.update k x al) k = Some x"
    by (simp add: AList.update_conv')
  have "(k, e) \<in> set (AList.update k x al) \<longleftrightarrow> e = x" for e
    using d m by (metis map_of_eq_Some_iff option.inject)
  then show ?thesis by (auto simp: expired_keys_def)
qed

lemma expired_absent:
  "k \<in> expired_keys t st \<Longrightarrow> k \<notin> fst ` set (store (cleanup_expired t st))"
  by (simp add: cleanup_store_keys)

text \<open>
  Claim C9, as amended. Let set(key, value, ttl) with a positive ttl return normally, the
  expiry it records being \<open>now2 + ttl\<close> seconds. Then the key exists at the clock
  reading of the set itself and at every reading before the expiry. At every reading \<open>t\<close>
  at or after the expiry, get(key) returns None and exists(key) is false, and the eviction
  pass that starts get, exists, delete, list_keys and set removes the key: it is absent from
  the state each of them leaves (for set, when it writes another key). The dictionaries hold
  each key once (\<open>distinct\<close>), as a Python dict does.
\<close>

theorem store_ttl_expiry:
  assumes wf: "distinct (map fst (expiry st))"
    and secs: "0 < secs"
    and ok: "store_set now now2 k v (Some secs) st = (Inr True, st')"
  shows "fst (store_exists now2 k st') \<and>
         (t < now2 + secs * 1000000 \<longrightarrow> fst (store_exists t k st')) \<and>
         (now2 + secs * 1000000 \<le> t \<longrightarrow>
            fst (store_get t k st') = PNone \<and>
            \<not> fst (store_exists t k st') \<and>
            k \<notin> fst ` set (store (cleanup_expired t st')) \<and>
            k \<notin> fst ` set (store (snd (store_get t k' st'))) \<and>
            k \<notin> fst ` set (store (snd (store_exists t k' st'))) \<and>
            k \<notin> fst ` set (store (snd (store_delete t k' st'))) \<and>
            k \<notin> fst ` set (store (snd (store_list_keys t pat st'))) \<and>
            (k' \<noteq> k \<longrightarrow> k \<notin> fst ` set (store (snd (store_set t t2 k' v' secs' st')))))"
proof -
  let ?x = "now2 + secs * 1000000"
  let ?c = "cleanup_expired now st"
  let ?al = "expiry ?c"
  have st': "st' = ?c\<lparr>store := AList.update k v (store ?c), expiry := AList.update k ?x ?al\<rparr>"
    using ok by (auto simp: store_set_def Let_def datetime_add_seconds_def split: if_splits)
  have dal: "distinct (map fst ?al)" using wf by (rule cleanup_distinct)
  have ek: "expired_keys u st' \<inter> {k} = (if ?x \<le> u then {k} else {})" for u
    unfolding st' using expired_keys_update[OF dal, where t = u and k = k and x = "?x" and st = "?c\<lparr>store := AList.update k v (store ?c)\<rparr>"]
    by (simp add: expired_keys_def)
  have kin: "k \<in> fst ` set (store st')"
    unfolding st' by (simp add: AList.dom_update)
  have live: "fst (store_exists u k st')" if "u < ?x" for u
  proof -
    have "k \<notin> expired_keys u st'" using ek[of u] that by auto
    then show ?thesis using kin by (simp add: store_exists_def Let_def cleanup_store_keys)
  qed
  have dead: "k \<notin> fst ` set (store (cleanup_expired t st'))" if "?x \<le> t"
  proof -
    have "k \<in> expired_keys t st'" using ek[of t] that by auto
    then show ?thesis by (rule expired_absent)
  qed
  have imm: "fst (store_exists now2 k st')" using secs by (intro live) simp
  have after: "fst (store_get t k st') = PNone \<and>
            \<not> fst (store_exists t k st') \<and>
            k \<notin> fst ` set (store (cleanup_expired t st')) \<and>
            k \<notin> fst ` set (store (snd (store_get t k' st'))) \<and>
            k \<notin> fst ` set (store (snd (store_exists t k' st'))) \<and>
            k \<notin> fst ` set (store (snd (store_delete t k' st'))) \<and>
            k \<notin> fst ` set (store (snd (store_list_keys t pat st'))) \<and>
            (k' \<noteq> k \<longrightarrow> k \<notin> fst ` set (store (snd (store_set t t2 k' v' secs' st'))))"
    if x: "?x \<le> t"
  proof -
    note d = dead[OF x]
    have g: "fst (store_get t k st') = PNone"
    proof -
      have "map_of (store (cleanup_expired t st')) k = None"
        using d by (simp add: map_of_eq_None_iff)
      then show ?thesis by (simp add: store_get_def Let_def)
    qed
    have e: "\<not> fst (store_exists t k st')"
      using d by (simp add: store_exists_def Let_def)
    have g2: "k \<notin> fst ` set (store (snd (store_get t k' st')))"
      using d by (simp add: store_get_def Let_def)
    have e2: "k \<notin> fst ` set (store (snd (store_exists t k' st')))"
      using d by (simp add: store_exists_def Let_def)
    have d2: "k \<notin> fst ` set (store (snd (store_delete t k' st')))"
      using d by (simp add: store_delete_def Let_def evict_keys)
    have l2: "k \<notin> fst ` set (store (snd (store_list_keys t pat st')))"
      using d by (simp add: store_list_keys_def Let_def)
    have s2: "k' \<noteq> k \<longrightarrow> k \<notin> fst ` set (store (snd (store_set t t2 k' v' secs' st')))"
      using d by (auto simp: store_set_def Let_def AList.dom_update split: option.splits sum.splits)
    from g e d g2 e2 d2 l2 s2 show ?thesis by blast
  qed
  from imm live after show ?thesis by blast
qed

text \<open>
  The scenario of the store's own test: set with ttl 1 at reading 0, exists at once, get
  after 1.1 seconds.
\<close>

theorem store_ttl_expiry_witness:
  "fst (store_exists 0 ''expires-soon''
     \<lparr>store = [(''expires-soon'', PStr ''value'')], expiry = [(''expires-soon'', 1000000)]\<rparr>) \<and>
   fst (store_get 1100000 ''expires-soon''
     \<lparr>store = [(''expires-soon'', PStr ''value'')], expiry = [(''expires-soon'', 1000000)]\<rparr>) = PNone"
proof -
  have wf: "distinct (map fst (expiry empty_store))" by (simp add: empty_store_def)
  have secs: "(0::int) < 1" by simp
  have ok: "store_set 0 0 ''expires-soon'' (PStr ''value'') (Some 1) empty_store =
     (Inr True, \<lparr>store = [(''expires-soon'', PStr ''value'')], expiry = [(''expires-soon'', 1000000)]\<rparr>)"
    by (simp add: store_set_def cleanup_expired_def empty_store_def datetime_add_seconds_def datetime_max_def)
  show ?thesis
    using store_ttl_expiry[OF wf secs ok, of 1100000] by simp
qed

text \<open>
  Claim C9 as stated lists clear among the operations that first evict an expired key.
  clear has no eviction pass: on a store holding one key that expired at second 1, clear
  at second 5 counts that key (it returns 1), where a clear that ran the pass first would
  return 0.
\<close>

theorem store_clear_no_eviction_counterexample:
  "fst (store_clear \<lparr>store = [(''k'', PStr ''v'')], expiry = [(''k'', 1000000)]\<rparr>) = 1 \<and>
   fst (store_clear (cleanup_expired 5000000
          \<lparr>store = [(''k'', PStr ''v'')], expiry = [(''k'', 1000000)]\<rparr>)) = 0"
  by (simp add: store_clear_def cleanup_expired_def evict_def)

text \<open>The invariant at a store holding one key with an expiry, overwritten without a ttl.\<close>

theorem store_ops_preserve_no_orphan_expiry_witness:
  "no_orphan_expiry \<lparr>store = [(''k'', PInt 1)], expiry = [(''k'', 5000000)]\<rparr> \<and>
   no_orphan_expiry (snd (store_set 1 2 ''k'' (PInt 2) None
      \<lparr>store = [(''k'', PInt 1)], expiry = [(''k'', 5000000)]\<rparr>)) \<and>
   fst (store_get 9000000 ''k'' (snd (store_set 1 2 ''k'' (PInt 2) None
      \<lparr>store = [(''k'', PInt 1)], expiry = [(''k'', 5000000)]\<rparr>))) = PInt 2"
proof -
  have h: "no_orphan_expiry \<lparr>store = [(''k'', PInt 1)], expiry = [(''k'', 5000000)]\<rparr>"
    by (simp add: no_orphan_expiry_def)
  show ?thesis
    using h store_ops_preserve_no_orphan_expiry[OF h, of 1 "''k''" 2 "PInt 2" None None 9000000]
    by simp
qed
section \<open>Properties of the signed envelope\<close>

lemma collect_all_Inr:
  "(\<And>r. r \<in> set rs \<Longrightarrow> \<exists>y. r = Inr y) \<Longrightarrow> \<exists>ys. collect rs = Inr ys"
proof (induction rs)
  case Nil
  then show ?case by simp
next
  case (Cons r rs)
  then obtain y where "r = Inr y" by auto
  moreover from Cons obtain ys where "collect rs = Inr ys" by auto
  ultimately show ?case by simp
qed

lemma collect_TypeError:
  "Inl TypeError \<in> set rs \<Longrightarrow> (\<And>e. Inl e \<in> set rs \<Longrightarrow> e = TypeError)
     \<Longrightarrow> collect rs = Inl TypeError"
proof (induction rs)
  case Nil
  then show ?case by simp
next
  case (Cons r rs)
  show ?case
  proof (cases r)
    case (Inl e)
    then have "e = TypeError" using Cons.prems(2) by simp
    with Inl show ?thesis by simp
  next
    case (Inr y)
    then have "Inl TypeError \<in> set rs" using Cons.prems(1) by auto
    then have "collect rs = Inl TypeError" using Cons by auto
    with Inr show ?thesis by simp
  qed
qed

lemma collect_cases:
  assumes "\<And>r. r \<in> set rs \<Longrightarrow> r = Inl TypeError \<or> (\<exists>s. r = Inr s)"
  shows "(Inl TypeError \<in> set rs \<longrightarrow> collect rs = Inl TypeError) \<and>
         (Inl TypeError \<notin> set rs \<longrightarrow> (\<exists>ys. collect rs = Inr ys))"
proof (intro conjI impI)
  assume "Inl TypeError \<in> set rs"
  moreover have "e = TypeError" if "Inl e \<in> set rs" for e
    using assms[OF that] by auto
  ultimately show "collect rs = Inl TypeError" by (rule collect_TypeError)
next
  assume "Inl TypeError \<notin> set rs"
  then have "\<exists>y. r = Inr y" if "r \<in> set rs" for r
    using assms[OF that] that by auto
  then show "\<exists>ys. collect rs = Inr ys" by (rule collect_all_Inr)
qed

lemma dumps_cases_list:
  assumes "\<And>x. x \<in> set xs \<Longrightarrow>
             (has_object x \<longrightarrow> dumps L x = Inl TypeError) \<and>
             (\<not> has_object x \<longrightarrow> (\<exists>s. dumps L x = Inr s))"
  shows "(list_ex has_object xs \<longrightarrow> collect (map (dumps L) xs) = Inl TypeError) \<and>
         (\<not> list_ex has_object xs \<longrightarrow> (\<exists>ys. collect (map (dumps L) xs) = Inr ys))"
proof -
  let ?rs = "map (dumps L) xs"
  have 1: "r = Inl TypeError \<or> (\<exists>s. r = Inr s)" if "r \<in> set ?rs" for r
    using that assms by auto
  have 2: "Inl TypeError \<in> set ?rs \<longleftrightarrow> list_ex has_object xs"
  proof
    assume "Inl TypeError \<in> set ?rs"
    then obtain x where "x \<in> set xs" "dumps L x = Inl TypeError" by auto
    then show "list_ex has_object xs" using assms by (force simp: list_ex_iff)
  next
    assume "list_ex has_object xs"
    then obtain x where "x \<in> set xs" "has_object x" by (auto simp: list_ex_iff)
    then show "Inl TypeError \<in> set ?rs" using assms by force
  qed
  show ?thesis using collect_cases[of ?rs, OF 1] unfolding 2 by blast
qed

lemma dumps_cases_dict:
  assumes "\<And>k v. (k, v) \<in> set kvs \<Longrightarrow>
             (has_object v \<longrightarrow> dumps L v = Inl TypeError) \<and>
             (\<not> has_object v \<longrightarrow> (\<exists>s. dumps L v = Inr s))"
  shows "(list_ex (\<lambda>(k, v). has_object v) kvs \<longrightarrow>
            collect (map snd (sort_key fst (map (\<lambda>(k, v). (k, dumps L v)) kvs))) = Inl TypeError) \<and>
         (\<not> list_ex (\<lambda>(k, v). has_object v) kvs \<longrightarrow>
            (\<exists>ys. collect (map snd (sort_key fst (map (\<lambda>(k, v). (k, dumps L v)) kvs))) = Inr ys))"
proof -
  let ?rs = "map snd (sort_key fst (map (\<lambda>(k, v). (k, dumps L v)) kvs))"
  have set_rs: "set ?rs = (\<lambda>(k, v). dumps L v) ` set kvs"
    by (force simp: image_iff)
  have 1: "r = Inl TypeError \<or> (\<exists>s. r = Inr s)" if "r \<in> set ?rs" for r
    using that assms unfolding set_rs by auto
  have 2: "Inl TypeError \<in> set ?rs \<longleftrightarrow> list_ex (\<lambda>(k, v). has_object v) kvs"
  proof
    assume "Inl TypeError \<in> set ?rs"
    then obtain k v where "(k, v) \<in> set kvs" "dumps L v = Inl TypeError"
      unfolding set_rs by auto
    then show "list_ex (\<lambda>(k, v). has_object v) kvs" using assms by (force simp: list_ex_iff)
  next
    assume "list_ex (\<lambda>(k, v). has_object v) kvs"
    then obtain k v where "(k, v) \<in> set kvs" "has_object v" by (auto simp: list_ex_iff)
    then show "Inl TypeError \<in> set ?rs" unfolding set_rs using assms by force
  qed
  show ?thesis using collect_cases[of ?rs, OF 1] unfolding 2 by blast
qed

lemma dumps_has_object:
  "(has_object v \<longrightarrow> dumps L v = Inl TypeError) \<and> (\<not> has_object v \<longrightarrow> (\<exists>s. dumps L v = Inr s))"
proof (induction v)
  case (PList xs)
  then have "(list_ex has_object xs \<longrightarrow> collect (map (dumps L) xs) = Inl TypeError) \<and>
         (\<not> list_ex has_object xs \<longrightarrow> (\<exists>ys. collect (map (dumps L) xs) = Inr ys))"
    by (intro dumps_cases_list) auto
  then show ?case by auto
next
  case (PTuple xs)
  then have "(list_ex has_object xs \<longrightarrow> collect (map (dumps L) xs) = Inl TypeError) \<and>
         (\<not> list_ex has_object xs \<longrightarrow> (\<exists>ys. collect (map (dumps L) xs) = Inr ys))"
    by (intro dumps_cases_list) auto
  then show ?case by auto
next
  case (PDict kvs)
  have ih: "(has_object v \<longrightarrow> dumps L v = Inl TypeError) \<and>
            (\<not> has_object v \<longrightarrow> (\<exists>s. dumps L v = Inr s))" if "(k, v) \<in> set kvs" for k v
    using PDict that by fastforce
  have "(list_ex (\<lambda>(k, v). has_object v) kvs \<longrightarrow>
            collect (map snd (sort_key fst (map (\<lambda>(k, v). (k, dumps L v)) kvs))) = Inl TypeError) \<and>
         (\<not> list_ex (\<lambda>(k, v). has_object v) kvs \<longrightarrow>
            (\<exists>ys. collect (map snd (sort_key fst (map (\<lambda>(k, v). (k, dumps L v)) kvs))) = Inr ys))"
    by (rule dumps_cases_dict) (rule ih)
  then show ?case by auto
qed simp_all


lemma canonical_signature:
  "canonical L (m\<lparr>signature := x\<rparr>) = canonical L m"
  by (simp add: canonical_def to_dict_def)

lemma canonical_payload:
  "canonical L m = dumps L (PDict
       [(''message_id'', PStr (message_id m)),
        (''trace_id'', PStr (trace_id m)),
        (''correlation_id'', PStr (correlation_id m)),
        (''message_type'', PStr (message_type m)),
        (''version'', PStr (version m)),
        (''timestamp'', PStr (isoformat (timestamp m))),
        (''payload'', PDict (payload m)),
        (''meta'', PDict [(''sender'', PStr (sender (meta m))),
                          (''receiver'', opt_str (receiver (meta m))),
                          (''priority'', PInt (priority (meta m))),
                          (''ttl'', PInt (ttl (meta m)))])])"
  by (simp add: canonical_def to_dict_def)

lemma has_object_opt_str [simp]: "\<not> has_object (opt_str x)"
  by (simp add: opt_str_def split: option.splits)

lemma canonical_cases:
  "(has_object (PDict (payload m)) \<longrightarrow> canonical L m = Inl TypeError) \<and>
   (\<not> has_object (PDict (payload m)) \<longrightarrow> (\<exists>c. canonical L m = Inr c))"
proof -
  let ?d = "PDict
       [(''message_id'', PStr (message_id m)),
        (''trace_id'', PStr (trace_id m)),
        (''correlation_id'', PStr (correlation_id m)),
        (''message_type'', PStr (message_type m)),
        (''version'', PStr (version m)),
        (''timestamp'', PStr (isoformat (timestamp m))),
        (''payload'', PDict (payload m)),
        (''meta'', PDict [(''sender'', PStr (sender (meta m))),
                          (''receiver'', opt_str (receiver (meta m))),
                          (''priority'', PInt (priority (meta m))),
                          (''ttl'', PInt (ttl (meta m)))])]"
  have "has_object ?d = has_object (PDict (payload m))" by simp
  then show ?thesis using dumps_has_object[of ?d L] unfolding canonical_payload by metis
qed



lemma hex_digit_ascii: "n < 16 \<Longrightarrow> is_ascii (hex_digit n)"
  by (simp add: hex_digit_def is_ascii_def)

lemma of_char_nat_less: "(of_char c :: nat) < 256"
proof -
  have "(of_char c :: nat) mod 256 < 256" by simp
  then show ?thesis by (simp only: of_char_mod_256)
qed

lemma hex_digits_ascii:
  "is_ascii (hex_digit (of_char b div 16)) \<and> is_ascii (hex_digit (of_char b mod 16))"
proof -
  have "(of_char b :: nat) div 16 < 16" using of_char_nat_less[of b] by presburger
  then show ?thesis by (simp add: hex_digit_ascii)
qed

lemma hexdigest_ascii: "list_all is_ascii (hexdigest bs)"
  by (induction bs) (simp_all add: hexdigest_def hex_digits_ascii)

lemma compare_digest_hmac_hex:
  "compare_digest (hmac_hex L s c) (hmac_hex L s c') = Inr (hmac_hex L s c = hmac_hex L s c')"
  by (simp add: compare_digest_def hmac_hex_def hexdigest_ascii)

lemma sign_message_Inr:
  "sign_message L m secret = Inr sm \<longleftrightarrow>
     (\<exists>c. canonical L m = Inr c \<and>
          sm = m\<lparr>signature := Some (hmac_hex L (resolve_secret L secret) c)\<rparr>)"
  by (auto simp: sign_message_def compute_hmac_signature_def split: sum.splits)

text \<open>
  Claim C3. For every envelope and secret, whenever signing returns a signed envelope,
  verifying that envelope with the same secret returns true (an absent secret stands for the
  shared secret of the settings on both sides). Signing does return one for every payload
  that holds no object the encoder rejects.
\<close>

theorem verify_signed_message:
  "(sign_message L m secret = Inr sm \<longrightarrow> verify_message L sm secret = Inr True) \<and>
   (\<not> has_object (PDict (payload m)) \<longrightarrow> (\<exists>s. sign_message L m secret = Inr s))"
proof (intro conjI impI)
  assume "sign_message L m secret = Inr sm"
  then obtain c where c: "canonical L m = Inr c"
    and s: "sm = m\<lparr>signature := Some (hmac_hex L (resolve_secret L secret) c)\<rparr>"
    unfolding sign_message_Inr by blast
  have "canonical L sm = Inr c" unfolding s canonical_signature by (rule c)
  then show "verify_message L sm secret = Inr True"
    by (simp add: verify_message_def compute_hmac_signature_def s compare_digest_hmac_hex)
next
  assume "\<not> has_object (PDict (payload m))"
  then obtain c where "canonical L m = Inr c" using canonical_cases by blast
  then show "\<exists>s. sign_message L m secret = Inr s" unfolding sign_message_Inr by blast
qed






text \<open>
  The envelope of the protocol's tests, signed and verified with \<open>test-secret-key\<close>, for
  every HMAC.
\<close>

theorem verify_signed_message_witness:
  "\<forall>L. \<exists>sm. sign_message L (test_message [(''data'', PStr ''test'')]) (Some ''test-secret-key'') = Inr sm \<and>
     verify_message L sm (Some ''test-secret-key'') = Inr True"
proof
  fix L
  let ?m = "test_message [(''data'', PStr ''test'')]"
  have "\<not> has_object (PDict (payload ?m))" by (simp add: test_message_def)
  then show "\<exists>sm. sign_message L ?m (Some ''test-secret-key'') = Inr sm \<and>
     verify_message L sm (Some ''test-secret-key'') = Inr True"
    using verify_signed_message[of L ?m "Some ''test-secret-key''"] by blast
qed



section \<open>Properties of the message bus\<close>

text \<open>
  Claim C6. When the envelope names no receiver in its metadata and send is called with no
  receiver argument (or with the empty string, which counts as none), send returns false
  and the bus is as it was: every queue, the history and the subscriber lists are
  unchanged, and no callback invocation is added to the trace. The function has no path
  on which it raises.
\<close>

theorem send_without_receiver:
  assumes "receiver (meta msg) = None"
  shows "send_message msg None b = (False, b) \<and> send_message msg (Some []) b = (False, b)"
  using assms by (simp add: send_message_def resolve_target_def)

text \<open>
  An envelope without receiver, sent on a bus where a callback is subscribed for \<open>B\<close>.
\<close>

theorem send_without_receiver_witness:
  "receiver (meta first_message) = None \<and>
   send_message first_message None (subscribe ''B'' failing_callback empty_bus) =
     (False, subscribe ''B'' failing_callback empty_bus)"
proof -
  have h: "receiver (meta first_message) = None"
    by (simp add: first_message_def test_message_def)
  show ?thesis
    using h send_without_receiver[OF h, of "subscribe ''B'' failing_callback empty_bus"] by simp
qed

text \<open>
  For comparison, the same envelope sent to \<open>B\<close>: it is queued, recorded in the history,
  and the callback is invoked (what it raises is caught).
\<close>

lemma send_with_receiver_notifies:
  "fst (send_message first_message (Some ''B'') (subscribe ''B'' failing_callback empty_bus)) \<and>
   invocations (snd (send_message first_message (Some ''B'') (subscribe ''B'' failing_callback empty_bus)))
     = [(''handler'', ''m-1'', Some \<lparr>exc_type = ''RuntimeError'', exc_message = ''boom''\<rparr>)] \<and>
   queues (snd (send_message first_message (Some ''B'') (subscribe ''B'' failing_callback empty_bus))) ''B''
     = [first_message] \<and>
   message_history (snd (send_message first_message (Some ''B'') (subscribe ''B'' failing_callback empty_bus)))
     = [first_message]"
  by (simp add: send_message_def resolve_target_def subscribe_def empty_bus_def Let_def
      failing_callback_def first_message_def test_message_def)

lemma slice_from_last:
  "0 < limit \<Longrightarrow> slice_from (- limit) xs = drop (length xs - nat limit) xs"
  by (auto simp: slice_from_def Let_def max_def intro: arg_cong[where f = "\<lambda>n. drop n xs"])

text \<open>
  Claim C5, as amended. For a positive limit, the history operation returns the last
  \<open>limit\<close> of the envelopes that match whichever of the two ids are given (an id that is
  absent or empty does not filter), in the order of the history buffer, which is the order
  in which they were sent: it is a suffix of the matching envelopes, oldest first, of at
  most \<open>limit\<close> envelopes.
\<close>

theorem history_is_tail_of_matches:
  assumes "0 < limit"
  shows "get_message_history tr co limit b =
           drop (length (filter (\<lambda>m. (given tr \<longrightarrow> trace_id m = the tr) \<and>
                                        (given co \<longrightarrow> correlation_id m = the co))
                           (message_history b)) - nat limit)
             (filter (\<lambda>m. (given tr \<longrightarrow> trace_id m = the tr) \<and>
                            (given co \<longrightarrow> correlation_id m = the co))
                (message_history b)) \<and>
         int (length (get_message_history tr co limit b)) \<le> limit \<and>
         suffix (get_message_history tr co limit b)
           (filter (\<lambda>m. (given tr \<longrightarrow> trace_id m = the tr) \<and>
                          (given co \<longrightarrow> correlation_id m = the co))
              (message_history b))"
proof -
  let ?P = "\<lambda>m. (given tr \<longrightarrow> trace_id m = the tr) \<and> (given co \<longrightarrow> correlation_id m = the co)"
  let ?ms = "filter ?P (message_history b)"
  have f: "(let messages = message_history b;
          messages1 = (if given tr
                       then filter (\<lambda>m. trace_id m = the tr) messages else messages);
          messages2 = (if given co
                       then filter (\<lambda>m. correlation_id m = the co) messages1
                       else messages1) in messages2) = ?ms"
    by (auto simp: Let_def intro: filter_cong)
  have r: "get_message_history tr co limit b = drop (length ?ms - nat limit) ?ms"
    using f slice_from_last[OF assms, of ?ms] by (simp add: get_message_history_def Let_def)
  have l: "int (length (get_message_history tr co limit b)) \<le> limit"
    unfolding r using assms by auto
  have s: "suffix (get_message_history tr co limit b) ?ms"
    unfolding r by (rule suffix_drop)
  from r l s show ?thesis by blast
qed

text \<open>
  Claim C5 as stated says the newest envelope comes first. After the first and then the
  second message are sent, the history with limit 2 is the first message followed by the
  second: oldest first.
\<close>

theorem history_oldest_first_counterexample:
  "get_message_history None None 2
     (snd (send_message second_message (Some ''B'')
        (snd (send_message first_message (Some ''B'') empty_bus)))) =
     [first_message, second_message] \<and>
   first_message \<noteq> second_message"
  by (simp add: get_message_history_def given_def slice_from_def send_message_def
      resolve_target_def empty_bus_def Let_def first_message_def second_message_def
      test_message_def)

text \<open>
  With limit 1 and the trace id of both messages, the history is the second message, the
  most recent one.
\<close>

theorem history_is_tail_of_matches_witness:
  "get_message_history (Some ''trace-1'') None 1
     (snd (send_message second_message (Some ''B'')
        (snd (send_message first_message (Some ''B'') empty_bus)))) = [second_message]"
proof -
  have l: "(0::int) < 1" by simp
  show ?thesis
    using history_is_tail_of_matches[OF l, of "Some ''trace-1''" None
        "snd (send_message second_message (Some ''B'')
           (snd (send_message first_message (Some ''B'') empty_bus)))"]
    by (simp add: given_def send_message_def resolve_target_def empty_bus_def Let_def
        first_message_def second_message_def test_message_def)
qed

section \<open>Properties of the orchestrator\<close>

lemma default_window_valid:
  assumes "valid_datetime b"
  shows "default_window b = Inr (b\<lparr>hour := 9, minute := 0\<rparr>, b\<lparr>hour := 10, minute := 0\<rparr>)"
  using assms by (simp add: default_window_def replace_hm_def datetime_new_def valid_datetime_def)

lemma split_example: "split_dash ''2:00 PM - 1:00 PM'' = [''2:00 PM '', '' 1:00 PM'']"
  by code_simp

lemma strip_examples: "strip ''2:00 PM '' = ''2:00 PM''" "strip '' 1:00 PM'' = ''1:00 PM''"
  by code_simp+

lemma strptime_2pm: "strptime_IMp ''2:00 PM'' = Inr (14, 0)"
  by code_simp

lemma strptime_1pm: "strptime_IMp ''1:00 PM'' = Inr (13, 0)"
  by code_simp

lemma replace_hm00_valid:
  assumes "valid_datetime b" and "h < 24" and "m < 60"
  shows "replace_hm00 b h m = Inr (b\<lparr>hour := h, minute := m, second := 0, microsecond := 0\<rparr>)"
  using assms by (simp add: replace_hm00_def datetime_new_def valid_datetime_def)

lemma datetime_le_same_day:
  "datetime_le (b\<lparr>hour := h, minute := m, second := 0, microsecond := 0\<rparr>)
               (b\<lparr>hour := h', minute := m', second := 0, microsecond := 0\<rparr>)
     \<longleftrightarrow> h < h' \<or> (h = h' \<and> m \<le> m')"
  by (auto simp: datetime_le_def datetime_fields_def)

text \<open>
  Claim C7. For every string and every base day (a \<open>datetime\<close> object, so its fields are
  valid), the time-range parser returns a window and raises nothing: what the body of its
  \<open>try\<close> raises is answered with the default window. On \<open>"2:00 PM - 1:00 PM"\<close>, where
  the end lies before the start, the window starts at 14:00 of the base day and ends one
  hour later, at 15:00.
\<close>

theorem parse_time_range_total:
  assumes "valid_datetime b"
  shows "(\<exists>w. parse_time_range s b = Inr w) \<and>
         parse_time_range ''2:00 PM - 1:00 PM'' b =
           Inr (b\<lparr>hour := 14, minute := 0, second := 0, microsecond := 0\<rparr>,
                b\<lparr>hour := 15, minute := 0, second := 0, microsecond := 0\<rparr>)"
proof
  show "\<exists>w. parse_time_range s b = Inr w"
    by (cases "parse_time_range_try s b")
      (simp_all add: parse_time_range_def default_window_valid[OF assms])
next
  have "parse_time_range_try ''2:00 PM - 1:00 PM'' b =
           Inr (b\<lparr>hour := 14, minute := 0, second := 0, microsecond := 0\<rparr>,
                b\<lparr>hour := 15, minute := 0, second := 0, microsecond := 0\<rparr>)"
    by (simp add: parse_time_range_try_def split_example strip_examples strptime_2pm strptime_1pm
        replace_hm00_valid[OF assms] datetime_le_same_day add_one_hour_def)
  then show "parse_time_range ''2:00 PM - 1:00 PM'' b =
           Inr (b\<lparr>hour := 14, minute := 0, second := 0, microsecond := 0\<rparr>,
                b\<lparr>hour := 15, minute := 0, second := 0, microsecond := 0\<rparr>)"
    by (simp add: parse_time_range_def)
qed

text \<open>
  The first of December 2025 as base day, with the string of the claim and with a string
  that is no time range.
\<close>

theorem parse_time_range_total_witness:
  "valid_datetime schedule_day \<and>
   parse_time_range ''2:00 PM - 1:00 PM'' schedule_day =
     Inr (\<lparr>year = 2025, month = 12, day = 1, hour = 14, minute = 0, second = 0, microsecond = 0\<rparr>,
          \<lparr>year = 2025, month = 12, day = 1, hour = 15, minute = 0, second = 0, microsecond = 0\<rparr>) \<and>
   (\<exists>w. parse_time_range ''noon - ish'' schedule_day = Inr w)"
proof -
  have v: "valid_datetime schedule_day"
    by (simp add: valid_datetime_def schedule_day_def days_in_month_def)
  show ?thesis
    using v parse_time_range_total[OF v, of "''noon - ish''"] by (simp add: schedule_day_def)
qed

lemma store_get_absent:
  "k \<notin> fst ` set (store st) \<Longrightarrow> fst (store_get t k st) = PNone"
proof -
  assume "k \<notin> fst ` set (store st)"
  then have "k \<notin> fst ` set (store (cleanup_expired t st))" by (simp add: cleanup_store_keys)
  then have "map_of (store (cleanup_expired t st)) k = None" by (simp add: map_of_eq_None_iff)
  then show ?thesis by (simp add: store_get_def Let_def)
qed

lemma store_get_live:
  "k \<notin> expired_keys t st \<Longrightarrow> map_of (store st) k = Some v \<Longrightarrow> fst (store_get t k st) = v"
  by (simp add: store_get_def Let_def cleanup_map_of)

lemma wait_unfold:
  "fst (wait_for_optimization None now now2 context st) =
     (if truthy (fst (store_get now (''optimized_plan:'' @ ctx_task_id context) st))
      then fst (store_get now (''optimized_plan:'' @ ctx_task_id context) st)
      else if truthy (fst (store_get now2 (''optimized_plan:'' @ ctx_correlation_id context)
                             (snd (store_get now (''optimized_plan:'' @ ctx_task_id context) st))))
      then fst (store_get now2 (''optimized_plan:'' @ ctx_correlation_id context)
                  (snd (store_get now (''optimized_plan:'' @ ctx_task_id context) st)))
      else empty_optimization)"
  by (simp add: wait_for_optimization_def split: prod.splits)

text \<open>
  Claim C1, as amended. When the await on the bus times out (\<open>received = None\<close>), the
  orchestrator reads the store at \<open>optimized_plan:{task_id}\<close>; when that read gives
  nothing or a value that is false in a condition (\<open>None\<close>, an empty dictionary), it reads
  at \<open>optimized_plan:{correlation_id}\<close>; it returns the first of the two values that is
  true, and the empty result with empty lists of flights, hotels and activities when
  neither is. In particular a true value stored and not expired at the task id's key is
  returned, and with both keys absent the result is the empty one. Nothing is raised: the
  function returns in every case.
\<close>

theorem wait_for_optimization_fallback:
  assumes "received = None"
  shows "fst (wait_for_optimization received now now2 context st) =
     (if truthy (fst (store_get now (''optimized_plan:'' @ ctx_task_id context) st))
      then fst (store_get now (''optimized_plan:'' @ ctx_task_id context) st)
      else if truthy (fst (store_get now2 (''optimized_plan:'' @ ctx_correlation_id context)
                             (snd (store_get now (''optimized_plan:'' @ ctx_task_id context) st))))
      then fst (store_get now2 (''optimized_plan:'' @ ctx_correlation_id context)
                  (snd (store_get now (''optimized_plan:'' @ ctx_task_id context) st)))
      else empty_optimization) \<and>
     (map_of (store st) (''optimized_plan:'' @ ctx_task_id context) = Some v \<and> truthy v \<and>
      ''optimized_plan:'' @ ctx_task_id context \<notin> expired_keys now st
        \<longrightarrow> fst (wait_for_optimization received now now2 context st) = v) \<and>
     (''optimized_plan:'' @ ctx_task_id context \<notin> fst ` set (store st) \<and>
      ''optimized_plan:'' @ ctx_correlation_id context \<notin> fst ` set (store st)
        \<longrightarrow> fst (wait_for_optimization received now now2 context st) = empty_optimization)"
proof (intro conjI impI)
  show "fst (wait_for_optimization received now now2 context st) =
     (if truthy (fst (store_get now (''optimized_plan:'' @ ctx_task_id context) st))
      then fst (store_get now (''optimized_plan:'' @ ctx_task_id context) st)
      else if truthy (fst (store_get now2 (''optimized_plan:'' @ ctx_correlation_id context)
                             (snd (store_get now (''optimized_plan:'' @ ctx_task_id context) st))))
      then fst (store_get now2 (''optimized_plan:'' @ ctx_correlation_id context)
                  (snd (store_get now (''optimized_plan:'' @ ctx_task_id context) st)))
      else empty_optimization)"
    unfolding assms by (rule wait_unfold)
next
  assume a: "map_of (store st) (''optimized_plan:'' @ ctx_task_id context) = Some v \<and> truthy v \<and>
      ''optimized_plan:'' @ ctx_task_id context \<notin> expired_keys now st"
  then have "fst (store_get now (''optimized_plan:'' @ ctx_task_id context) st) = v"
    by (simp add: store_get_live)
  with a show "fst (wait_for_optimization received now now2 context st) = v"
    unfolding assms wait_unfold by simp
next
  assume a: "''optimized_plan:'' @ ctx_task_id context \<notin> fst ` set (store st) \<and>
      ''optimized_plan:'' @ ctx_correlation_id context \<notin> fst ` set (store st)"
  let ?st1 = "snd (store_get now (''optimized_plan:'' @ ctx_task_id context) st)"
  have 1: "fst (store_get now (''optimized_plan:'' @ ctx_task_id context) st) = PNone"
    using a by (simp add: store_get_absent)
  have "fst ` set (store ?st1) \<subseteq> fst ` set (store st)"
    by (auto simp: store_get_def Let_def cleanup_store_keys)
  then have "''optimized_plan:'' @ ctx_correlation_id context \<notin> fst ` set (store ?st1)"
    using a by blast
  then have 2: "fst (store_get now2 (''optimized_plan:'' @ ctx_correlation_id context) ?st1) = PNone"
    by (rule store_get_absent)
  show "fst (wait_for_optimization received now now2 context st) = empty_optimization"
    unfolding assms wait_unfold 1 2 by simp
qed

text \<open>
  The scenario of the specification: a plan stored at the key of the task id is returned
  after the timeout; with an empty store the empty result is.
\<close>

theorem wait_for_optimization_fallback_witness:
  "fst (wait_for_optimization None 1000000 1000000
          (new_context ''task-1'' [] fresh_callbacks) task_keyed_store) = stored_plan \<and>
   fst (wait_for_optimization None 1000000 1000000
          (new_context ''task-1'' [] fresh_callbacks) empty_store) = empty_optimization"
proof -
  have n: "(None :: a2a_message option) = None" by simp
  have 1: "map_of (store task_keyed_store)
             (''optimized_plan:'' @ ctx_task_id (new_context ''task-1'' [] fresh_callbacks)) = Some stored_plan \<and>
           truthy stored_plan \<and>
           ''optimized_plan:'' @ ctx_task_id (new_context ''task-1'' [] fresh_callbacks)
             \<notin> expired_keys 1000000 task_keyed_store"
    by (simp add: task_keyed_store_def new_context_def stored_plan_def expired_keys_def)
  have 2: "''optimized_plan:'' @ ctx_task_id (new_context ''task-1'' [] fresh_callbacks)
             \<notin> fst ` set (store empty_store) \<and>
           ''optimized_plan:'' @ ctx_correlation_id (new_context ''task-1'' [] fresh_callbacks)
             \<notin> fst ` set (store empty_store)"
    by (simp add: empty_store_def)
  from 1 2 show ?thesis
    using wait_for_optimization_fallback[OF n, of 1000000 1000000
        "new_context ''task-1'' [] fresh_callbacks" task_keyed_store stored_plan]
      wait_for_optimization_fallback[OF n, of 1000000 1000000
        "new_context ''task-1'' [] fresh_callbacks" empty_store stored_plan]
    by blast
qed

text \<open>
  Claim C1 as stated has the second read at the key of the trace id. With a plan stored at
  \<open>optimized_plan:{trace_id}\<close> only (and not expired), the orchestrator returns the
  empty result: that key is never read.
\<close>

theorem trace_key_not_read_counterexample:
  "fst (store_get 1000000 (''optimized_plan:'' @ ctx_trace_id (new_context ''task-1'' [] fresh_callbacks))
          trace_keyed_store) = stored_plan \<and>
   truthy stored_plan \<and>
   fst (wait_for_optimization None 1000000 1000000
          (new_context ''task-1'' [] fresh_callbacks) trace_keyed_store) = empty_optimization \<and>
   stored_plan \<noteq> empty_optimization"
  by (simp add: wait_for_optimization_def store_get_def cleanup_expired_def new_context_def
      fresh_callbacks_def trace_keyed_store_def stored_plan_def empty_optimization_def)

lemma step_raises_try:
  "step_raises steps context cb0 x \<Longrightarrow> fst (execute_try steps context cb0) = Inl x"
  by (auto simp: step_raises_def execute_try_def Let_def split: prod.splits option.splits sum.splits)

lemma execute_try_context:
  "execute_try steps context cb0 = (Inr it, context1, cb1) \<Longrightarrow> ctx_status context1 = COMPLETED"
  by (auto simp: execute_try_def Let_def split: prod.splits option.splits sum.splits)

lemma execute_try_raised_context:
  "execute_try steps context cb0 = (Inl x, context1, cb1) \<Longrightarrow> context1 = context"
  by (auto simp: execute_try_def Let_def split: prod.splits option.splits sum.splits)

lemma deliver_all:
  "deliver ls ev ds = ds @ map (\<lambda>l. (listener_name l, ev, listener_run l ev)) ls"
  by (induction ls arbitrary: ds) simp_all

lemma emit_event_trace:
  "emitted (emit_event ev cb) \<noteq> [] \<and> last (emitted (emit_event ev cb)) = ev \<and>
   listeners (emit_event ev cb) = listeners cb \<and>
   list_all (\<lambda>l. (listener_name l, ev, listener_run l ev) \<in> set (deliveries (emit_event ev cb)))
     (listeners cb)"
  by (simp add: emit_event_def deliver_all list_all_iff)

lemma on_task_error_event:
  "s \<noteq> [] \<Longrightarrow> on_task_error tid e (Some s) cb =
     emit_event
       (new_event cb TASK_ERROR ERROR tid s []
          (Some [(''type'', exc_type e), (''message'', exc_message e)])) cb"
  by (simp add: on_task_error_def)

text \<open>
  Claim C8, as amended. Whatever is raised by the producer, the await or the assembly step
  leaves \<open>execute\<close> as it is: nothing is swallowed. When what \<open>execute\<close> raises is an
  instance \<open>e\<close> of \<open>Exception\<close>, the context is failed and the last event emitted is a
  \<open>task_error\<close> of severity error for the task, whose error detail is the class name and
  the message of \<open>e\<close>; every registered listener has been called with it, whatever the
  listeners before it raised. When what it raises is no instance of \<open>Exception\<close>, the
  handler is not entered: the context is still running, and context and callbacks are as
  the body of the \<open>try\<close> left them. When \<open>execute\<close> returns an itinerary the context is
  completed. A timeout of the await phase is not an exception: the await step then returns
  a plan (claim C1).
\<close>

theorem execute_reports_failure:
  "(step_raises steps (new_context tid params cb) (started tid params cb) x \<longrightarrow>
      fst (execute steps tid params cb) = Inl x) \<and>
   (fst (execute steps tid params cb) = Inl (ExceptionInstance e) \<longrightarrow>
      ctx_status (fst (snd (execute steps tid params cb))) = FAILED \<and>
      emitted (snd (snd (execute steps tid params cb))) \<noteq> [] \<and>
      ev_type (last (emitted (snd (snd (execute steps tid params cb))))) = TASK_ERROR \<and>
      ev_severity (last (emitted (snd (snd (execute steps tid params cb))))) = ERROR \<and>
      ev_task_id (last (emitted (snd (snd (execute steps tid params cb))))) = Some tid \<and>
      ev_message (last (emitted (snd (snd (execute steps tid params cb))))) =
        ''Workflow failed: '' @ exc_message e \<and>
      ev_error (last (emitted (snd (snd (execute steps tid params cb))))) =
        Some [(''type'', exc_type e), (''message'', exc_message e)] \<and>
      list_all
        (\<lambda>l. (listener_name l, last (emitted (snd (snd (execute steps tid params cb)))),
               listener_run l (last (emitted (snd (snd (execute steps tid params cb))))))
              \<in> set (deliveries (snd (snd (execute steps tid params cb)))))
        (listeners (snd (snd (execute steps tid params cb))))) \<and>
   (fst (execute steps tid params cb) = Inl (BaseExceptionOnly e') \<longrightarrow>
      ctx_status (fst (snd (execute steps tid params cb))) = RUNNING \<and>
      snd (execute steps tid params cb) =
        snd (execute_try steps (new_context tid params cb) (started tid params cb))) \<and>
   (fst (execute steps tid params cb) = Inr it \<longrightarrow>
      ctx_status (fst (snd (execute steps tid params cb))) = COMPLETED)"
proof -
  let ?ctx = "new_context tid params cb"
  let ?cb0 = "started tid params cb"
  let ?x = "execute steps tid params cb"
  obtain r context1 cb1 where t: "execute_try steps ?ctx ?cb0 = (r, context1, cb1)"
    by (cases "execute_try steps ?ctx ?cb0") auto
  have fst_x: "fst ?x = r"
    using t by (cases r) (auto simp: execute_def Let_def split: raised.splits)
  have 1: "fst ?x = Inl x" if "step_raises steps ?ctx ?cb0 x"
    using step_raises_try[OF that] t fst_x by simp
  have 2: "ctx_status (fst (snd ?x)) = FAILED \<and>
      emitted (snd (snd ?x)) \<noteq> [] \<and>
      ev_type (last (emitted (snd (snd ?x)))) = TASK_ERROR \<and>
      ev_severity (last (emitted (snd (snd ?x)))) = ERROR \<and>
      ev_task_id (last (emitted (snd (snd ?x)))) = Some tid \<and>
      ev_message (last (emitted (snd (snd ?x)))) = ''Workflow failed: '' @ exc_message e \<and>
      ev_error (last (emitted (snd (snd ?x)))) =
        Some [(''type'', exc_type e), (''message'', exc_message e)] \<and>
      list_all
        (\<lambda>l. (listener_name l, last (emitted (snd (snd ?x))),
               listener_run l (last (emitted (snd (snd ?x)))))
              \<in> set (deliveries (snd (snd ?x))))
        (listeners (snd (snd ?x)))"
    if "fst ?x = Inl (ExceptionInstance e)"
  proof -
    let ?ev = "new_event cb1 TASK_ERROR ERROR tid (''Workflow failed: '' @ exc_message e) []
          (Some [(''type'', exc_type e), (''message'', exc_message e)])"
    from that fst_x have r: "r = Inl (ExceptionInstance e)" by simp
    have x: "?x = (Inl (ExceptionInstance e), context1\<lparr>ctx_status := FAILED\<rparr>, emit_event ?ev cb1)"
      using t r by (simp add: execute_def Let_def on_task_error_event)
    show ?thesis unfolding x using emit_event_trace[of ?ev cb1]
      by (simp add: new_event_def)
  qed
  have 3: "ctx_status (fst (snd ?x)) = RUNNING \<and> snd ?x = snd (execute_try steps ?ctx ?cb0)"
    if "fst ?x = Inl (BaseExceptionOnly e')"
  proof -
    from that fst_x have r: "r = Inl (BaseExceptionOnly e')" by simp
    then have "context1 = ?ctx" using t execute_try_raised_context by blast
    then show ?thesis using t r by (simp add: execute_def Let_def new_context_def)
  qed
  have 4: "ctx_status (fst (snd ?x)) = COMPLETED" if "fst ?x = Inr it"
  proof -
    from that fst_x have r: "r = Inr it" by simp
    then have "ctx_status context1 = COMPLETED" using t execute_try_context by blast
    then show ?thesis using t r by (simp add: execute_def Let_def)
  qed
  from 1 2 3 4 show ?thesis by blast
qed

text \<open>
  The assembly raising \<open>ValueError\<close>, with a listener that raises on every event: the
  exception leaves \<open>execute\<close>, the context is failed, the \<open>task_error\<close> carries class
  name and message, and the listener has been called five times, for \<open>task_start\<close>,
  three \<open>task_progress\<close> and \<open>task_error\<close>.
\<close>

theorem execute_reports_failure_witness:
  "step_raises failing_steps (new_context ''task-1'' [] fresh_callbacks)
     (started ''task-1'' [] fresh_callbacks) (ExceptionInstance isoformat_error) \<and>
   fst (execute failing_steps ''task-1'' [] fresh_callbacks) = Inl (ExceptionInstance isoformat_error) \<and>
   ctx_status (fst (snd (execute failing_steps ''task-1'' [] fresh_callbacks))) = FAILED \<and>
   ev_type (last (emitted (snd (snd (execute failing_steps ''task-1'' [] fresh_callbacks))))) =
     TASK_ERROR \<and>
   ev_error (last (emitted (snd (snd (execute failing_steps ''task-1'' [] fresh_callbacks))))) =
     Some [(''type'', ''ValueError''), (''message'', exc_message isoformat_error)] \<and>
   length (deliveries (snd (snd (execute failing_steps ''task-1'' [] fresh_callbacks)))) = 5"
proof -
  have h: "step_raises failing_steps (new_context ''task-1'' [] fresh_callbacks)
     (started ''task-1'' [] fresh_callbacks) (ExceptionInstance isoformat_error)"
    by (simp add: step_raises_def failing_steps_def)
  have d: "length (deliveries (snd (snd (execute failing_steps ''task-1'' [] fresh_callbacks)))) = 5"
    by (simp add: execute_def execute_try_def failing_steps_def fresh_callbacks_def started_def
        new_context_def on_task_start_def on_task_progress_def on_task_error_def emit_event_def
        Let_def)
  have t: "exc_type isoformat_error = ''ValueError''" by (simp add: isoformat_error_def)
  show ?thesis
    using h d t execute_reports_failure[of failing_steps "''task-1''" "[]" fresh_callbacks
        "ExceptionInstance isoformat_error" isoformat_error]
    by simp
qed

text \<open>
  Claim C8 as stated speaks of every exception that escapes a step. A cancellation of the
  task while it awaits the optimized plan raises \<open>CancelledError\<close> in the await step; it
  escapes \<open>execute\<close>, the context stays running, and none of the events emitted is a
  \<open>task_error\<close>.
\<close>

theorem cancellation_not_reported_counterexample:
  "step_raises cancelled_steps (new_context ''task-1'' [] fresh_callbacks)
     (started ''task-1'' [] fresh_callbacks) (BaseExceptionOnly cancelled_error) \<and>
   fst (execute cancelled_steps ''task-1'' [] fresh_callbacks) =
     Inl (BaseExceptionOnly cancelled_error) \<and>
   ctx_status (fst (snd (execute cancelled_steps ''task-1'' [] fresh_callbacks))) = RUNNING \<and>
   map ev_type (emitted (snd (snd (execute cancelled_steps ''task-1'' [] fresh_callbacks)))) =
     [TASK_START, TASK_PROGRESS, TASK_PROGRESS]"
  by (simp add: step_raises_def execute_def execute_try_def cancelled_steps_def
      fresh_callbacks_def started_def new_context_def on_task_start_def on_task_progress_def
      emit_event_def new_event_def Let_def)


end
